theory Spec2Isabelle
  imports Complex_Main "HOL-Library.Word"
begin

unbundle bit_operations_syntax

section \<open>Bytes, machine words and their object representation\<close>

text \<open>
  The structures of the program are packed (\<^verbatim>\<open>#pragma pack(push, 1)\<close>) and are read and
  written through \<^verbatim>\<open>uint8_t\<close> pointers, so every multi-byte integer is modelled together
  with its bytes in memory. The byte order is little-endian (the order of the hosts the
  program is built for); no theorem below depends on the choice other than through
  \<open>bytes_u16 (u16_bytes w) = w\<close> and its 32 and 64 bit counterparts.
\<close>

type_synonym byte = "8 word"

definition u16_bytes :: "16 word \<Rightarrow> byte list" where
  "u16_bytes w = [ucast w, ucast (drop_bit 8 w)]"

definition u32_bytes :: "32 word \<Rightarrow> byte list" where
  "u32_bytes w = [ucast w, ucast (drop_bit 8 w), ucast (drop_bit 16 w), ucast (drop_bit 24 w)]"

definition u64_bytes :: "64 word \<Rightarrow> byte list" where
  "u64_bytes w =
     [ucast w, ucast (drop_bit 8 w), ucast (drop_bit 16 w), ucast (drop_bit 24 w),
      ucast (drop_bit 32 w), ucast (drop_bit 40 w), ucast (drop_bit 48 w), ucast (drop_bit 56 w)]"

definition bytes_u16 :: "byte list \<Rightarrow> 16 word" where
  "bytes_u16 bs = ucast (bs ! 0) OR push_bit 8 (ucast (bs ! 1))"

definition bytes_u32 :: "byte list \<Rightarrow> 32 word" where
  "bytes_u32 bs =
     ucast (bs ! 0) OR push_bit 8 (ucast (bs ! 1)) OR push_bit 16 (ucast (bs ! 2))
       OR push_bit 24 (ucast (bs ! 3))"

definition bytes_u64 :: "byte list \<Rightarrow> 64 word" where
  "bytes_u64 bs =
     ucast (bs ! 0) OR push_bit 8 (ucast (bs ! 1)) OR push_bit 16 (ucast (bs ! 2))
       OR push_bit 24 (ucast (bs ! 3)) OR push_bit 32 (ucast (bs ! 4))
       OR push_bit 40 (ucast (bs ! 5)) OR push_bit 48 (ucast (bs ! 6))
       OR push_bit 56 (ucast (bs ! 7))"

text \<open>
  Undefined behaviour of the C++ program is a value of the model: a division by zero, an
  access outside an array or vector, an overflowing signed multiplication, a call of
  \<^verbatim>\<open>atoi\<close> whose result does not fit an \<^verbatim>\<open>int\<close>, and the conversion to \<^verbatim>\<open>uint32_t\<close> of a
  \<^verbatim>\<open>double\<close> outside its range.
\<close>

datatype error = DivideByZero | OutOfBounds | SignedOverflow | AtoiOverflow | FloatToIntOverflow

section \<open>The frame header record (\<^verbatim>\<open>MetaData\<close>)\<close>

text \<open>
  \<^verbatim>\<open>struct MetaData\<close> of \<^verbatim>\<open>SDRdaemonBuffer.h\<close>, lines 34 to 50: twelve fields, packed, 42 bytes.
\<close>

record MetaData =
  m_centerFrequency :: "64 word"
  m_sampleRate :: "32 word"
  m_sampleBytes :: "8 word"
  m_sampleBits :: "8 word"
  m_blockSize :: "16 word"
  m_nbSamples :: "32 word"
  m_nbBlocks :: "16 word"
  m_remainderSamples :: "16 word"
  m_nbCompleteBlocks :: "16 word"
  m_tv_sec :: "32 word"
  m_tv_usec :: "32 word"
  m_crc :: "64 word"

definition sizeof_MetaData :: nat where
  "sizeof_MetaData = 8 + 4 + 1 + 1 + 2 + 4 + 2 + 2 + 2 + 4 + 4 + 8"

text \<open>The bytes of the eleven fields that precede \<open>m_crc\<close>, in declaration order.\<close>

definition MetaData_head_bytes :: "MetaData \<Rightarrow> byte list" where
  "MetaData_head_bytes h =
     u64_bytes (MetaData.m_centerFrequency h) @ u32_bytes (MetaData.m_sampleRate h)
     @ [MetaData.m_sampleBytes h] @ [MetaData.m_sampleBits h]
     @ u16_bytes (m_blockSize h) @ u32_bytes (MetaData.m_nbSamples h)
     @ u16_bytes (m_nbBlocks h) @ u16_bytes (m_remainderSamples h)
     @ u16_bytes (m_nbCompleteBlocks h) @ u32_bytes (m_tv_sec h) @ u32_bytes (m_tv_usec h)"

definition MetaData_bytes :: "MetaData \<Rightarrow> byte list" where
  "MetaData_bytes h = MetaData_head_bytes h @ u64_bytes (m_crc h)"

text \<open>Reading a \<^verbatim>\<open>MetaData\<close> through a pointer cast of a byte array (\<^verbatim>\<open>(MetaData *) array\<close>).\<close>

definition MetaData_of_bytes :: "byte list \<Rightarrow> MetaData" where
  "MetaData_of_bytes bs =
     \<lparr> m_centerFrequency = bytes_u64 (take 8 bs),
       m_sampleRate = bytes_u32 (take 4 (drop 8 bs)),
       m_sampleBytes = bs ! 12,
       m_sampleBits = bs ! 13,
       m_blockSize = bytes_u16 (take 2 (drop 14 bs)),
       m_nbSamples = bytes_u32 (take 4 (drop 16 bs)),
       m_nbBlocks = bytes_u16 (take 2 (drop 20 bs)),
       m_remainderSamples = bytes_u16 (take 2 (drop 22 bs)),
       m_nbCompleteBlocks = bytes_u16 (take 2 (drop 24 bs)),
       m_tv_sec = bytes_u32 (take 4 (drop 26 bs)),
       m_tv_usec = bytes_u32 (take 4 (drop 30 bs)),
       m_crc = bytes_u64 (take 8 (drop 34 bs)) \<rparr>"

section \<open>I/Q samples in memory\<close>

text \<open>
  The declaration of \<^verbatim>\<open>IQSample\<close> is not among the sources. The device callbacks
  (\<^verbatim>\<open>AirspySource::callback\<close>) build each sample as \<^verbatim>\<open>IQSample(re, im)\<close> from two
  \<^verbatim>\<open>int16_t\<close> values, and an \<^verbatim>\<open>IQSampleVector\<close> is a \<^verbatim>\<open>std::vector\<close> of them: a sample is
  modelled as a pair of 16 bit components stored one after the other, four bytes in all,
  and a vector as the contiguous bytes of its elements.
\<close>

datatype IQSample = IQSample (re: "16 word") (im: "16 word")

definition sizeof_IQSample :: nat where
  "sizeof_IQSample = 4"

definition IQSample_bytes :: "IQSample \<Rightarrow> byte list" where
  "IQSample_bytes x = u16_bytes (re x) @ u16_bytes (im x)"

definition vector_bytes :: "IQSample list \<Rightarrow> byte list" where
  "vector_bytes v = concat (map IQSample_bytes v)"

section \<open>The packetizer: \<^verbatim>\<open>UDPSink\<close>\<close>

text \<open>
  \<^verbatim>\<open>UDPSink.h\<close> and \<^verbatim>\<open>CRC64.h\<close> are not among the sources. What \<^verbatim>\<open>UDPSink.cpp\<close> uses of them
  without defining it is a parameter of the model: the checksum \<^verbatim>\<open>CRC64::calculate_crc\<close>
  (a function of the bytes it is given), the comparison \<^verbatim>\<open>MetaData::operator==\<close> and the
  value \<^verbatim>\<open>MetaData::init\<close> leaves in a header record.
\<close>

record externals =
  calculate_crc :: "byte list \<Rightarrow> 64 word"
  MetaData_equal :: "MetaData \<Rightarrow> MetaData \<Rightarrow> bool"
  MetaData_init :: "MetaData"

text \<open>
  The members of \<^verbatim>\<open>UDPSink\<close>, with the types their uses in \<^verbatim>\<open>UDPSink.cpp\<close> show
  (\<^verbatim>\<open>std::size_t\<close> is 64 bits wide). The arrays \<open>m_bufMeta\<close> and \<open>m_buf\<close> are their
  contents; the pointer \<open>m_lz4Buffer\<close> is the serial number of the allocation it points to
  (0 for the null pointer), \<open>allocations\<close> counting the \<^verbatim>\<open>new\<close> expressions evaluated for it.
\<close>

record UDPSink =
  m_address :: string
  m_port :: "32 word"
  m_udpSize :: "32 word"
  m_centerFrequency :: "64 word"
  m_sampleRate :: "32 word"
  m_sampleBytes :: "8 word"
  m_sampleBits :: "8 word"
  m_nbSamples :: "32 word"
  m_lz4MinInputSize :: "64 word"
  m_lz4BufSize :: int
  m_lz4Buffer :: nat
  allocations :: nat
  m_currentMeta :: MetaData
  m_bufMeta :: "byte list"
  m_buf :: "byte list"

text \<open>
  The constructor (lines 25 to 41). \<^verbatim>\<open>new uint8_t[m_udpSize]\<close> does not initialise the
  array: \<open>uninit\<close> gives the byte found at each index.
\<close>

definition UDPSink_new :: "externals \<Rightarrow> (nat \<Rightarrow> byte) \<Rightarrow> string \<Rightarrow> 32 word \<Rightarrow> 32 word \<Rightarrow> UDPSink" where
  "UDPSink_new ext uninit address port udpSize =
     \<lparr> m_address = address,
       m_port = port,
       m_udpSize = udpSize,
       m_centerFrequency = 100000000,
       m_sampleRate = 48000,
       m_sampleBytes = 1,
       m_sampleBits = 8,
       m_nbSamples = 0,
       m_lz4MinInputSize = 0,
       m_lz4BufSize = 0,
       m_lz4Buffer = 0,
       allocations = 0,
       m_currentMeta = MetaData_init ext,
       m_bufMeta = map uninit [0..<unat udpSize],
       m_buf = map uninit [0..<unat udpSize] \<rparr>"

record timeval =
  tv_sec :: "64 word"
  tv_usec :: "64 word"

text \<open>
  \<^verbatim>\<open>LZ4_compressBound\<close> of the LZ4 library (\<^verbatim>\<open>lz4.h\<close>, macro \<^verbatim>\<open>LZ4_COMPRESSBOUND\<close>), on the
  \<^verbatim>\<open>int\<close> it is passed.
\<close>

definition LZ4_compressBound :: "int \<Rightarrow> int" where
  "LZ4_compressBound isize =
     (if isize < 0 \<or> 0x7E000000 < isize then 0 else isize + isize div 255 + 16)"

text \<open>
  \<^verbatim>\<open>m_socket.SendDataGram(p, size, ...)\<close> hands the transport the \<open>sz\<close> bytes that start
  at \<open>p\<close>: here the object \<open>p\<close> points into is \<open>mem\<close>, at byte offset \<open>off\<close>. The datagram is
  the value; reading past the end of the object is undefined.
\<close>

definition SendDataGram :: "byte list \<Rightarrow> nat \<Rightarrow> int \<Rightarrow> error + byte list" where
  "SendDataGram mem off sz =
     (if sz < 0 \<or> int (length mem) < int off + sz then Inl OutOfBounds
      else Inr (take (nat sz) (drop off mem)))"

text \<open>Line 57: \<^verbatim>\<open>uint16_t samplesPerBlock = m_udpSize / (2 * m_sampleBytes)\<close>.\<close>

definition samplesPerBlock :: "UDPSink \<Rightarrow> error + 16 word" where
  "samplesPerBlock s =
     (if 2 * unat (UDPSink.m_sampleBytes s) = 0 then Inl DivideByZero
      else Inr (of_nat (unat (m_udpSize s) div (2 * unat (UDPSink.m_sampleBytes s)))))"

text \<open>
  Lines 61 to 71: the fields of the header record that precede the checksum. \<open>n\<close> is
  \<^verbatim>\<open>samples_in.size()\<close>, \<open>spb\<close> is \<open>samplesPerBlock\<close>, and \<open>c\<close> is what the bytes of the
  checksum field hold before line 72 assigns it.
\<close>

definition write_fields :: "timeval \<Rightarrow> UDPSink \<Rightarrow> nat \<Rightarrow> 16 word \<Rightarrow> 64 word \<Rightarrow> MetaData" where
  "write_fields tv s n spb c =
     \<lparr> MetaData.m_centerFrequency = UDPSink.m_centerFrequency s,
       MetaData.m_sampleRate = UDPSink.m_sampleRate s,
       MetaData.m_sampleBytes = UDPSink.m_sampleBytes s,
       MetaData.m_sampleBits = UDPSink.m_sampleBits s,
       m_blockSize = ucast (m_udpSize s),
       MetaData.m_nbSamples = of_nat n,
       m_nbBlocks = 1,
       m_remainderSamples = of_nat (n mod unat spb),
       m_nbCompleteBlocks = of_nat (n div unat spb),
       m_tv_sec = ucast (tv_sec tv),
       m_tv_usec = ucast (tv_usec tv),
       m_crc = c \<rparr>"

text \<open>
  Lines 55 to 72: the header record is built in place in \<open>m_bufMeta\<close>. Lines 61 to 67
  write bytes 0 to 21, line 68 divides by \<open>samplesPerBlock\<close>, lines 68 to 72 write bytes
  22 to 41; the checksum is computed over the first \<^verbatim>\<open>sizeof(MetaData) - 8\<close> bytes of the
  array. The result is the record, the block length and the new contents of \<open>m_bufMeta\<close>.
\<close>

definition write_meta :: "externals \<Rightarrow> timeval \<Rightarrow> UDPSink \<Rightarrow> nat \<Rightarrow> error + (MetaData \<times> 16 word \<times> byte list)" where
  "write_meta ext tv s n =
     (case samplesPerBlock s of
        Inl e \<Rightarrow> Inl e
      | Inr spb \<Rightarrow>
          if length (m_bufMeta s) < 22 then Inl OutOfBounds
          else if spb = 0 then Inl DivideByZero
          else if length (m_bufMeta s) < sizeof_MetaData then Inl OutOfBounds
          else
            let h0 = write_fields tv s n spb (bytes_u64 (take 8 (drop 34 (m_bufMeta s))));
                buf1 = MetaData_head_bytes h0 @ drop (sizeof_MetaData - 8) (m_bufMeta s);
                h = h0 \<lparr> m_crc := calculate_crc ext (take (sizeof_MetaData - 8) buf1) \<rparr>
            in Inr (h, spb, MetaData_bytes h @ drop sizeof_MetaData (m_bufMeta s)))"

text \<open>Lines 74 to 91: the LZ4 scratch buffer is sized again when the frame length changes.\<close>

definition write_resize :: "UDPSink \<Rightarrow> MetaData \<Rightarrow> error + UDPSink" where
  "write_resize s h =
     (if MetaData.m_nbSamples h \<noteq> UDPSink.m_nbSamples s then
        let bytesPerFrame = MetaData.m_nbSamples h * 2 * ucast (UDPSink.m_sampleBytes s) :: 32 word
        in if 0 < m_lz4MinInputSize s then
             if bytesPerFrame = 0 then Inl DivideByZero
             else
               let inputLZ4Size =
                     ucast ((m_lz4MinInputSize s div ucast bytesPerFrame + 1) * ucast bytesPerFrame) :: 32 word
               in Inr (s \<lparr> m_lz4BufSize := LZ4_compressBound (sint inputLZ4Size),
                           m_lz4Buffer := Suc (allocations s),
                           allocations := Suc (allocations s),
                           m_nbSamples := MetaData.m_nbSamples h \<rparr>)
           else Inr (s \<lparr> m_nbSamples := MetaData.m_nbSamples h \<rparr>)
      else Inr s)"

text \<open>Lines 93 to 111 (the log line goes to \<^verbatim>\<open>std::cerr\<close> and is left out).\<close>

definition write_current :: "externals \<Rightarrow> UDPSink \<Rightarrow> MetaData \<Rightarrow> UDPSink" where
  "write_current ext s h =
     (if \<not> MetaData_equal ext h (m_currentMeta s) then s \<lparr> m_currentMeta := h \<rparr> else s)"

text \<open>
  Lines 115 to 118: the loop over the complete blocks, from index \<open>i\<close> on. Block \<open>i\<close> is
  sent from the address of \<^verbatim>\<open>samples_in[i*samplesPerBlock]\<close>, \<open>mem\<close> being the bytes of the
  vector.
\<close>

function send_blocks :: "byte list \<Rightarrow> 16 word \<Rightarrow> int \<Rightarrow> 16 word \<Rightarrow> nat \<Rightarrow> error + byte list list" where
  "send_blocks mem spb sz nbComplete i =
     (if i < unat nbComplete then
        (case SendDataGram mem (sizeof_IQSample * (i * unat spb)) sz of
           Inl e \<Rightarrow> Inl e
         | Inr d \<Rightarrow>
             (case send_blocks mem spb sz nbComplete (Suc i) of
                Inl e \<Rightarrow> Inl e
              | Inr ds \<Rightarrow> Inr (d # ds)))
      else Inr [])"
  by pat_completeness auto
termination
  by (relation "measure (\<lambda>(mem, spb, sz, nbComplete, i). unat nbComplete - i)") auto

declare send_blocks.simps [simp del]

text \<open>
  Lines 120 to 124: the remainder is copied to the start of \<open>m_buf\<close>, whose other bytes
  are left as they are, and \<open>m_buf\<close> is sent. The index
  \<^verbatim>\<open>m_nbCompleteBlocks*samplesPerBlock\<close> is a product of two \<^verbatim>\<open>uint16_t\<close>, computed in
  \<^verbatim>\<open>int\<close>. The result is the new contents of \<open>m_buf\<close> and the datagrams sent.
\<close>

definition send_remainder :: "UDPSink \<Rightarrow> MetaData \<Rightarrow> 16 word \<Rightarrow> byte list \<Rightarrow> error + (byte list \<times> byte list list)" where
  "send_remainder s h spb mem =
     (if 0 < m_remainderSamples h then
        let idx = int (unat (m_nbCompleteBlocks h)) * int (unat spb);
            len = 2 * unat (m_remainderSamples h) * unat (MetaData.m_sampleBytes h AND 0xF)
        in if 2 ^ 31 \<le> idx then Inl SignedOverflow
           else if length mem < sizeof_IQSample * nat idx + len then Inl OutOfBounds
           else if length (m_buf s) < len then Inl OutOfBounds
           else
             let buf = take len (drop (sizeof_IQSample * nat idx) mem) @ drop len (m_buf s)
             in (case SendDataGram buf 0 (sint (m_udpSize s)) of
                   Inl e \<Rightarrow> Inl e
                 | Inr d \<Rightarrow> Inr (buf, [d]))
      else Inr (m_buf s, []))"

text \<open>
  \<^verbatim>\<open>UDPSink::write\<close> (lines 53 to 125). \<open>tv\<close> is what \<^verbatim>\<open>gettimeofday\<close> returns. The result is
  the sink after the call and the datagrams handed to the socket, in the order of the
  calls of \<^verbatim>\<open>SendDataGram\<close>.
\<close>

definition UDPSink_write :: "externals \<Rightarrow> timeval \<Rightarrow> UDPSink \<Rightarrow> IQSample list \<Rightarrow> error + (UDPSink \<times> byte list list)" where
  "UDPSink_write ext tv s samples_in =
     (case write_meta ext tv s (length samples_in) of
        Inl e \<Rightarrow> Inl e
      | Inr (h, spb, bufMeta) \<Rightarrow>
          (case write_resize (s \<lparr> m_bufMeta := bufMeta \<rparr>) h of
             Inl e \<Rightarrow> Inl e
           | Inr s1 \<Rightarrow>
               let s2 = write_current ext s1 h in
               (case SendDataGram (m_bufMeta s2) 0 (sint (m_udpSize s2)) of
                  Inl e \<Rightarrow> Inl e
                | Inr d0 \<Rightarrow>
                    (case send_blocks (vector_bytes samples_in) spb (sint (m_udpSize s2))
                            (m_nbCompleteBlocks h) 0 of
                       Inl e \<Rightarrow> Inl e
                     | Inr ds \<Rightarrow>
                         (case send_remainder s2 h spb (vector_bytes samples_in) of
                            Inl e \<Rightarrow> Inl e
                          | Inr (buf, dr) \<Rightarrow> Inr (s2 \<lparr> m_buf := buf \<rparr>, d0 # ds @ dr))))))"

text \<open>The header record a call of \<^verbatim>\<open>write\<close> builds (the \<^verbatim>\<open>*metaData\<close> of lines 55 to 72).\<close>

definition write_header :: "externals \<Rightarrow> timeval \<Rightarrow> UDPSink \<Rightarrow> IQSample list \<Rightarrow> error + MetaData" where
  "write_header ext tv s samples_in =
     (case write_meta ext tv s (length samples_in) of
        Inl e \<Rightarrow> Inl e
      | Inr (h, spb, bufMeta) \<Rightarrow> Inr h)"

text \<open>
  The sinks for which \<^verbatim>\<open>write\<close> is free of undefined behaviour on every frame: both arrays
  are \<open>m_udpSize\<close> bytes long, as the constructor allocates them; the sample-encoding byte
  is 2, the number of bytes a component of an \<^verbatim>\<open>IQSample\<close> has in memory; the datagram size
  is a multiple of four (so a block of samples fills a datagram exactly), holds a header
  record and fits the 16 bit field \<open>m_blockSize\<close>; and no LZ4 input size is set (the
  constructor's value).
\<close>

definition UDPSink_ready :: "UDPSink \<Rightarrow> bool" where
  "UDPSink_ready s \<longleftrightarrow>
     length (m_bufMeta s) = unat (m_udpSize s) \<and> length (m_buf s) = unat (m_udpSize s)
     \<and> UDPSink.m_sampleBytes s = 2
     \<and> 42 \<le> unat (m_udpSize s) \<and> unat (m_udpSize s) < 65536 \<and> 4 dvd unat (m_udpSize s)
     \<and> m_lz4MinInputSize s = 0"

text \<open>A summary of a header record: frame length, block count, complete blocks, remainder.\<close>

definition header_shape :: "MetaData \<Rightarrow> nat \<times> nat \<times> nat \<times> nat" where
  "header_shape h =
     (unat (MetaData.m_nbSamples h), unat (m_nbBlocks h), unat (m_nbCompleteBlocks h),
      unat (m_remainderSamples h))"

subsection \<open>Concrete instances for the examples\<close>

text \<open>
  The closed examples below need values for the parameters. \<open>example_crc\<close> is a stand-in
  checksum, not the CRC-64 of the program (whose source is absent): the theorems hold
  for every checksum function, and the examples use this one only to be closed terms.
  \<open>example_sink\<close> is the sink the constructor returns, its arrays zeroed, after
  \<^verbatim>\<open>setSampleBytes(2)\<close>: components of two bytes, as the samples have in memory.
\<close>

definition example_crc :: "byte list \<Rightarrow> 64 word" where
  "example_crc bs = foldl (\<lambda>c b. c * 31 + ucast b + 1) 0 bs"

definition example_ext :: externals where
  "example_ext = \<lparr> calculate_crc = example_crc, MetaData_equal = (=),
       MetaData_init = MetaData_of_bytes (replicate 42 0) \<rparr>"

definition example_tv :: timeval where
  "example_tv = \<lparr> tv_sec = 1445000000, tv_usec = 250000 \<rparr>"

definition example_sink :: "32 word \<Rightarrow> UDPSink" where
  "example_sink udpSize =
     (UDPSink_new example_ext (\<lambda>i. 0) ''127.0.0.1'' 9090 udpSize) \<lparr> UDPSink.m_sampleBytes := 2 \<rparr>"

section \<open>The receiver: reassembling a frame from datagrams\<close>








section \<open>The device sources: \<^verbatim>\<open>AirspySource\<close> and \<^verbatim>\<open>AirspyHFSource\<close>\<close>

subsection \<open>The C library functions \<^verbatim>\<open>configure\<close> calls\<close>

text \<open>\<^verbatim>\<open>std::string::c_str\<close>: the characters before the first NUL.\<close>

definition c_str :: "string \<Rightarrow> string" where
  "c_str s = takeWhile (\<lambda>c. of_char c \<noteq> (0 :: nat)) s"

definition isspace :: "char \<Rightarrow> bool" where
  "isspace c \<longleftrightarrow> (of_char c :: nat) = 32 \<or> (9 \<le> (of_char c :: nat) \<and> (of_char c :: nat) \<le> 13)"

definition isdigit :: "char \<Rightarrow> bool" where
  "isdigit c \<longleftrightarrow> 48 \<le> (of_char c :: nat) \<and> (of_char c :: nat) \<le> 57"

definition tolower :: "char \<Rightarrow> char" where
  "tolower c = (if 65 \<le> (of_char c :: nat) \<and> (of_char c :: nat) \<le> 90
                then char_of ((of_char c :: nat) + 32) else c)"

text \<open>The value of the longest run of decimal digits at the start of a string, after \<open>acc\<close>.\<close>

fun digits_value :: "int \<Rightarrow> string \<Rightarrow> int" where
  "digits_value acc [] = acc"
| "digits_value acc (c # cs) =
     (if isdigit c then digits_value (acc * 10 + (int (of_char c) - 48)) cs else acc)"

text \<open>
  \<^verbatim>\<open>atoi(s.c_str())\<close>: white space is skipped, then an optional sign and the digits are read;
  the behaviour is undefined when the number does not fit an \<^verbatim>\<open>int\<close> (32 bits).
\<close>

definition atoi_value :: "string \<Rightarrow> int" where
  "atoi_value s =
     (case dropWhile isspace (c_str s) of
        [] \<Rightarrow> 0
      | c # cs \<Rightarrow>
          if c = CHR ''-'' then - digits_value 0 cs
          else if c = CHR ''+'' then digits_value 0 cs
          else digits_value 0 (c # cs))"

definition atoi :: "string \<Rightarrow> error + int" where
  "atoi s =
     (if - (2 ^ 31) \<le> atoi_value s \<and> atoi_value s < 2 ^ 31 then Inr (atoi_value s)
      else Inl AtoiOverflow)"

text \<open>\<^verbatim>\<open>strcasecmp(a.c_str(), b) == 0\<close>.\<close>

definition strcasecmp_equal :: "string \<Rightarrow> string \<Rightarrow> bool" where
  "strcasecmp_equal a b \<longleftrightarrow> map tolower (c_str a) = map tolower (c_str b)"

text \<open>
  A floating point number is modelled by its value, a real. The conversion of a
  \<^verbatim>\<open>double\<close> to \<^verbatim>\<open>uint32_t\<close> (the argument \<open>tuner_freq\<close> of the inner \<^verbatim>\<open>configure\<close>) drops the
  fraction, and is undefined when what is left does not fit.
\<close>

definition double_to_uint32 :: "real \<Rightarrow> error + 32 word" where
  "double_to_uint32 x =
     (let t = (if 0 \<le> x then \<lfloor>x\<rfloor> else \<lceil>x\<rceil>)
      in if 0 \<le> t \<and> t < 2 ^ 32 then Inr (word_of_int t) else Inl FloatToIntOverflow)"

subsection \<open>The device and the other collaborators\<close>

text \<open>
  The calls \<^verbatim>\<open>configure\<close> makes into \<^verbatim>\<open>libairspy\<close> and \<^verbatim>\<open>libairspyhf\<close>. The source records every
  call it makes in \<open>dev_calls\<close>; whether a call succeeds is decided by the device, a
  parameter that sees the calls made before. \<^verbatim>\<open>strtod\<close> is a parameter too: it gives the
  \<^verbatim>\<open>double\<close> it returns when the whole string was converted without error
  (\<^verbatim>\<open>*e == '\0' && errno == 0\<close>). So is the printing of a number into an error message by
  \<^verbatim>\<open>std::ostringstream\<close>.

  Floating point arithmetic rounds. \<open>round_double\<close> gives the \<^verbatim>\<open>double\<close> next to a real and
  \<open>round_float\<close> the \<^verbatim>\<open>float\<close>, as the platform rounds: the sum or product of two
  \<^verbatim>\<open>double\<close>s is the rounded exact one, a \<^verbatim>\<open>double\<close> stored in a \<^verbatim>\<open>float\<close> is rounded again,
  and a literal such as \<^verbatim>\<open>1e-6\<close> stands for the \<^verbatim>\<open>double\<close> next to it. A \<^verbatim>\<open>uint32_t\<close>, an \<^verbatim>\<open>int\<close>
  and a \<^verbatim>\<open>float\<close> become a \<^verbatim>\<open>double\<close> without rounding.
\<close>

datatype dev_call =
    set_freq "32 word"
  | set_samplerate int
  | set_lna_gain int
  | set_mixer_gain int
  | set_vga_gain int
  | set_rf_bias int
  | set_lna_agc int
  | set_mixer_agc int

record collaborators =
  device_accepts :: "dev_call list \<Rightarrow> dev_call \<Rightarrow> bool"
  strtod :: "string \<Rightarrow> real option"
  round_double :: "real \<Rightarrow> real"
  round_float :: "real \<Rightarrow> real"
  print_number :: "int \<Rightarrow> string"

text \<open>\<^verbatim>\<open>a + b\<close>, \<^verbatim>\<open>a - b\<close> and \<^verbatim>\<open>a * b\<close> on two \<^verbatim>\<open>double\<close>s.\<close>

definition double_add :: "collaborators \<Rightarrow> real \<Rightarrow> real \<Rightarrow> real" where
  "double_add env a b = round_double env (a + b)"

definition double_sub :: "collaborators \<Rightarrow> real \<Rightarrow> real \<Rightarrow> real" where
  "double_sub env a b = round_double env (a - b)"

definition double_mul :: "collaborators \<Rightarrow> real \<Rightarrow> real \<Rightarrow> real" where
  "double_mul env a b = round_double env (a * b)"

text \<open>\<^verbatim>\<open>parsekv::pairs_type\<close>, a map from keys to values (its header is not among the sources).\<close>

type_synonym pairs_type = "string \<rightharpoonup> string"

text \<open>
  The loop of lines 463 to 470: the index of the first supported rate equal to \<open>x\<close>,
  counted from \<open>i\<close>, or the index past the end when there is none.
\<close>

fun srate_loop :: "int list \<Rightarrow> int \<Rightarrow> nat \<Rightarrow> nat" where
  "srate_loop [] x i = i"
| "srate_loop (r # rs) x i = (if r = x then i else srate_loop rs x (Suc i))"

subsection \<open>\<^verbatim>\<open>AirspySource\<close>\<close>

text \<open>
  The members \<^verbatim>\<open>AirspySource.cpp\<close> reads and writes. \<open>m_dev\<close> says whether the device
  handle is non-null. \<open>m_error\<close>, \<open>m_confFreq\<close>, \<open>m_fcPos\<close> and \<open>m_decim\<close> belong to the base
  class \<^verbatim>\<open>DeviceSource\<close>, whose header is not among the sources: \<open>m_confFreq\<close> is read into
  and written from a \<^verbatim>\<open>uint32_t\<close>, the other two are assigned \<^verbatim>\<open>int\<close>s. \<open>m_ppm\<close> is a \<^verbatim>\<open>float\<close>,
  held as the real it stands for.
\<close>

record AirspySource =
  m_dev :: bool
  m_sampleRate :: "32 word"
  m_frequency :: "32 word"
  m_ppm :: real
  m_lnaGain :: int
  m_mixGain :: int
  m_vgaGain :: int
  m_biasAnt :: bool
  m_lnaAGC :: bool
  m_mixAGC :: bool
  m_srates :: "int list"
  m_sratesStr :: string
  m_lgainsStr :: string
  m_mgainsStr :: string
  m_vgainsStr :: string
  m_error :: string
  m_confFreq :: "32 word"
  m_fcPos :: int
  m_decim :: int
  dev_calls :: "dev_call list"

definition m_lgains :: "int list" where
  "m_lgains = [0, 1, 2, 3, 4, 5, 6, 7, 8, 9, 10, 11, 12, 13, 14]"

definition m_mgains :: "int list" where
  "m_mgains = [0, 1, 2, 3, 4, 5, 6, 7, 8, 9, 10, 11, 12, 13, 14, 15]"

definition m_vgains :: "int list" where
  "m_vgains = [0, 1, 2, 3, 4, 5, 6, 7, 8, 9, 10, 11, 12, 13, 14, 15]"

text \<open>\<^verbatim>\<open>AirspySource::get_sample_rate\<close> and \<^verbatim>\<open>get_frequency\<close> (lines 220 to 228).\<close>

definition get_sample_rate :: "AirspySource \<Rightarrow> 32 word" where
  "get_sample_rate s = AirspySource.m_sampleRate s"

definition get_frequency :: "AirspySource \<Rightarrow> 32 word" where
  "get_frequency s = AirspySource.m_frequency s"

text \<open>
  One block of the inner \<^verbatim>\<open>configure\<close> (lines 241 to 418): the call is made and recorded;
  when the device refuses it, \<open>m_error\<close> is set to \<open>msg\<close> and \<^verbatim>\<open>configure\<close> returns false
  (\<open>Inl\<close>), else the next block runs (\<open>Inr\<close>).
\<close>

definition airspy_call :: "collaborators \<Rightarrow> AirspySource \<Rightarrow> dev_call \<Rightarrow> string
    \<Rightarrow> (bool \<times> AirspySource) + AirspySource" where
  "airspy_call env s c msg =
     (let s1 = s \<lparr> AirspySource.dev_calls := AirspySource.dev_calls s @ [c] \<rparr>
      in if device_accepts env (AirspySource.dev_calls s) c then Inr s1
         else Inl (False, s1 \<lparr> AirspySource.m_error := msg \<rparr>))"

definition bool_int :: "bool \<Rightarrow> int" where
  "bool_int b = (if b then 1 else 0)"

text \<open>
  \<^verbatim>\<open>AirspySource::configure(changeFlags, sampleRateIndex, frequency, bias_ant, lna_gain,
  mix_gain, vga_gain, lna_agc, mix_agc)\<close>, lines 241 to 418.
\<close>

definition AirspySource_configure_flags :: "collaborators \<Rightarrow> AirspySource \<Rightarrow> 32 word \<Rightarrow> nat \<Rightarrow> 32 word
    \<Rightarrow> int \<Rightarrow> int \<Rightarrow> int \<Rightarrow> int \<Rightarrow> int \<Rightarrow> int \<Rightarrow> error + (bool \<times> AirspySource)" where
  "AirspySource_configure_flags env s changeFlags sampleRateIndex frequency
       bias_ant lna_gain mix_gain vga_gain lna_agc mix_agc =
     (if \<not> AirspySource.m_dev s then Inr (False, s)
      else
        case (if changeFlags AND 0x1 \<noteq> 0
              then airspy_call env (s \<lparr> AirspySource.m_frequency := frequency \<rparr>) (set_freq frequency)
                     (''Could not set center frequency to '' @ print_number env (uint frequency) @ '' Hz'')
              else Inr s) of
          Inl r \<Rightarrow> Inr r
        | Inr s1 \<Rightarrow>
        if changeFlags AND 0x2 \<noteq> 0 \<and> \<not> sampleRateIndex < length (AirspySource.m_srates s1)
        then Inl OutOfBounds
        else
        case (if changeFlags AND 0x2 \<noteq> 0
              then (case airspy_call env s1 (set_samplerate (int sampleRateIndex))
                           (''Could not set center sample rate to ''
                             @ print_number env (AirspySource.m_srates s1 ! sampleRateIndex) @ '' Hz'') of
                      Inl r \<Rightarrow> Inl r
                    | Inr s' \<Rightarrow> Inr (s' \<lparr> AirspySource.m_sampleRate :=
                                            word_of_int (AirspySource.m_srates s1 ! sampleRateIndex) \<rparr>))
              else Inr s1) of
          Inl r \<Rightarrow> Inr r
        | Inr s2 \<Rightarrow>
        case (if changeFlags AND 0x4 \<noteq> 0
              then airspy_call env (s2 \<lparr> m_lnaGain := lna_gain \<rparr>) (set_lna_gain lna_gain)
                     (''Could not set LNA gain to '' @ print_number env lna_gain @ '' dB'')
              else Inr s2) of
          Inl r \<Rightarrow> Inr r
        | Inr s3 \<Rightarrow>
        case (if changeFlags AND 0x8 \<noteq> 0
              then airspy_call env (s3 \<lparr> m_mixGain := mix_gain \<rparr>) (set_mixer_gain mix_gain)
                     (''Could not set mixer gain to '' @ print_number env mix_gain @ '' dB'')
              else Inr s3) of
          Inl r \<Rightarrow> Inr r
        | Inr s4 \<Rightarrow>
        case (if changeFlags AND 0x10 \<noteq> 0
              then airspy_call env (s4 \<lparr> m_vgaGain := vga_gain \<rparr>) (set_vga_gain vga_gain)
                     (''Could not set VGA gain to '' @ print_number env vga_gain @ '' dB'')
              else Inr s4) of
          Inl r \<Rightarrow> Inr r
        | Inr s5 \<Rightarrow>
        case (if changeFlags AND 0x20 \<noteq> 0
              then airspy_call env (s5 \<lparr> m_biasAnt := (bias_ant \<noteq> 0) \<rparr>)
                     (set_rf_bias (bool_int (bias_ant \<noteq> 0)))
                     (''Could not set bias antenna to '' @ print_number env (bool_int (bias_ant \<noteq> 0)))
              else Inr s5) of
          Inl r \<Rightarrow> Inr r
        | Inr s6 \<Rightarrow>
        case (if changeFlags AND 0x40 \<noteq> 0
              then airspy_call env (s6 \<lparr> m_lnaAGC := (lna_agc \<noteq> 0) \<rparr>)
                     (set_lna_agc (bool_int (lna_agc \<noteq> 0)))
                     (''Could not set LNA AGC to '' @ print_number env (bool_int (lna_agc \<noteq> 0)))
              else Inr s6) of
          Inl r \<Rightarrow> Inr r
        | Inr s7 \<Rightarrow>
        case (if changeFlags AND 0x80 \<noteq> 0
              then airspy_call env (s7 \<lparr> m_mixAGC := (mix_agc \<noteq> 0) \<rparr>)
                     (set_mixer_agc (bool_int (mix_agc \<noteq> 0)))
                     (''Could not set mixer AGC to '' @ print_number env (bool_int (mix_agc \<noteq> 0)))
              else Inr s7) of
          Inl r \<Rightarrow> Inr r
        | Inr s8 \<Rightarrow> Inr (True, s8))"

subsection \<open>\<^verbatim>\<open>AirspyHFSource\<close>\<close>

text \<open>The members declared in \<^verbatim>\<open>AirspyHFSource.h\<close>, lines 95 to 106, and those of the base class.\<close>

record AirspyHFSource =
  m_dev :: bool
  m_sampleRate :: "32 word"
  m_frequency :: "32 word"
  m_ppm :: real
  m_hfAGC :: bool
  m_hfATT :: bool
  m_hfLNA :: bool
  m_srates :: "int list"
  m_sratesStr :: string
  m_error :: string
  m_confFreq :: "32 word"
  m_decim :: int
  dev_calls :: "dev_call list"

definition hf_get_sample_rate :: "AirspyHFSource \<Rightarrow> 32 word" where
  "hf_get_sample_rate s = AirspyHFSource.m_sampleRate s"

definition hf_call :: "collaborators \<Rightarrow> AirspyHFSource \<Rightarrow> dev_call \<Rightarrow> string
    \<Rightarrow> (bool \<times> AirspyHFSource) + AirspyHFSource" where
  "hf_call env s c msg =
     (let s1 = s \<lparr> AirspyHFSource.dev_calls := AirspyHFSource.dev_calls s @ [c] \<rparr>
      in if device_accepts env (AirspyHFSource.dev_calls s) c then Inr s1
         else Inl (False, s1 \<lparr> AirspyHFSource.m_error := msg \<rparr>))"

text \<open>
  \<^verbatim>\<open>AirspyHFSource::configure(changeFlags, sampleRateIndex, frequency, hf_agc, hf_att,
  hf_lna)\<close>, lines 162 to 276; the blocks for the last three arguments are commented out in
  the source.
\<close>

definition AirspyHFSource_configure_flags :: "collaborators \<Rightarrow> AirspyHFSource \<Rightarrow> 32 word \<Rightarrow> nat \<Rightarrow> 32 word
    \<Rightarrow> int \<Rightarrow> int \<Rightarrow> int \<Rightarrow> error + (bool \<times> AirspyHFSource)" where
  "AirspyHFSource_configure_flags env s changeFlags sampleRateIndex frequency hf_agc hf_att hf_lna =
     (if \<not> AirspyHFSource.m_dev s then Inr (False, s)
      else
        case (if changeFlags AND 0x1 \<noteq> 0
              then hf_call env (s \<lparr> AirspyHFSource.m_frequency := frequency \<rparr>) (set_freq frequency)
                     (''Could not set center frequency to '' @ print_number env (uint frequency) @ '' Hz'')
              else Inr s) of
          Inl r \<Rightarrow> Inr r
        | Inr s1 \<Rightarrow>
        if changeFlags AND 0x2 \<noteq> 0 \<and> \<not> sampleRateIndex < length (AirspyHFSource.m_srates s1)
        then Inl OutOfBounds
        else
        case (if changeFlags AND 0x2 \<noteq> 0
              then (case hf_call env s1 (set_samplerate (AirspyHFSource.m_srates s1 ! sampleRateIndex))
                           (''Could not set center sample rate to ''
                             @ print_number env (AirspyHFSource.m_srates s1 ! sampleRateIndex) @ '' Hz'') of
                      Inl r \<Rightarrow> Inl r
                    | Inr s' \<Rightarrow> Inr (s' \<lparr> AirspyHFSource.m_sampleRate :=
                                            word_of_int (AirspyHFSource.m_srates s1 ! sampleRateIndex) \<rparr>))
              else Inr s1) of
          Inl r \<Rightarrow> Inr r
        | Inr s2 \<Rightarrow> Inr (True, s2))"

subsection \<open>\<^verbatim>\<open>AirspySource::configure\<close> from a map\<close>

text \<open>The local variables of \<^verbatim>\<open>AirspySource::configure(parsekv::pairs_type& m)\<close>, lines 422 to 432.\<close>

record airspy_locals =
  sampleRateIndex :: nat
  frequency :: "32 word"
  lnaGain :: int
  mixGain :: int
  vgaGain :: int
  antBias :: int
  lnaAGC :: int
  mixAGC :: int
  fcpos :: int
  changeFlags :: "32 word"

definition airspy_locals_init :: "AirspySource \<Rightarrow> airspy_locals" where
  "airspy_locals_init s =
     \<lparr> sampleRateIndex = 0, frequency = AirspySource.m_confFreq s, lnaGain = 8, mixGain = 8,
       vgaGain = 0, antBias = 0, lnaAGC = 0, mixAGC = 0, fcpos = 2, changeFlags = 0 \<rparr>"

text \<open>
  Each key of the map is a step: \<open>Inl\<close> is an early \<^verbatim>\<open>return\<close> (or undefined behaviour),
  \<open>Inr\<close> the source and the locals the next step starts from.
\<close>

type_synonym airspy_step =
  "(error + (bool \<times> AirspySource)) + (AirspySource \<times> airspy_locals)"

text \<open>Lines 434 to 447, the key \<^verbatim>\<open>freq\<close>.\<close>

definition airspy_freq :: "pairs_type \<Rightarrow> AirspySource \<Rightarrow> airspy_locals \<Rightarrow> airspy_step" where
  "airspy_freq m s l =
     (case m ''freq'' of
        None \<Rightarrow> Inr (s, l)
      | Some v \<Rightarrow>
          (case atoi v of
             Inl e \<Rightarrow> Inl (Inl e)
           | Inr a \<Rightarrow>
               let f = word_of_int a :: 32 word
               in if f < 24000000 \<or> f > 1800000000
                  then Inl (Inr (False, s \<lparr> AirspySource.m_error := ''Invalid frequency'' \<rparr>))
                  else Inr (s, l \<lparr> frequency := f, changeFlags := changeFlags l OR 0x1 \<rparr>)))"

text \<open>Lines 449 to 486, the key \<^verbatim>\<open>srate\<close>.\<close>

definition airspy_srate :: "pairs_type \<Rightarrow> AirspySource \<Rightarrow> airspy_locals \<Rightarrow> airspy_step" where
  "airspy_srate m s l =
     (case m ''srate'' of
        None \<Rightarrow> Inr (s, l)
      | Some v \<Rightarrow>
          if strcasecmp_equal v ''list''
          then Inl (Inr (False, s \<lparr> AirspySource.m_error :=
                                      ''Available sample rates (Hz): '' @ AirspySource.m_sratesStr s \<rparr>))
          else
            (case atoi v of
               Inl e \<Rightarrow> Inl (Inl e)
             | Inr a \<Rightarrow>
                 let s1 = s \<lparr> AirspySource.m_sampleRate := word_of_int a \<rparr>;
                     i = srate_loop (AirspySource.m_srates s1) (sint (AirspySource.m_sampleRate s1)) 0
                 in if i = length (AirspySource.m_srates s1)
                    then Inl (Inr (False, s1 \<lparr> AirspySource.m_error := ''Invalid sample rate'',
                                               AirspySource.m_sampleRate := 0 \<rparr>))
                    else Inr (s1, l \<lparr> sampleRateIndex := i,
                                       changeFlags := (if fcpos l \<noteq> 2 then changeFlags l OR 0x2 OR 0x1
                                                       else changeFlags l OR 0x2) \<rparr>)))"

text \<open>
  Lines 488 to 554, the keys \<^verbatim>\<open>lgain\<close>, \<^verbatim>\<open>mgain\<close> and \<^verbatim>\<open>vgain\<close> (the last calls \<^verbatim>\<open>atoi\<close> before
  it looks for \<^verbatim>\<open>list\<close>).
\<close>

definition airspy_lgain :: "pairs_type \<Rightarrow> AirspySource \<Rightarrow> airspy_locals \<Rightarrow> airspy_step" where
  "airspy_lgain m s l =
     (case m ''lgain'' of
        None \<Rightarrow> Inr (s, l)
      | Some v \<Rightarrow>
          if strcasecmp_equal v ''list''
          then Inl (Inr (False, s \<lparr> AirspySource.m_error := ''Available LNA gains (dB): '' @ m_lgainsStr s \<rparr>))
          else
            (case atoi v of
               Inl e \<Rightarrow> Inl (Inl e)
             | Inr a \<Rightarrow>
                 if a \<notin> set m_lgains
                 then Inl (Inr (False, s \<lparr> AirspySource.m_error :=
                        ''LNA gain not supported. Available gains (dB): '' @ m_lgainsStr s \<rparr>))
                 else Inr (s, l \<lparr> lnaGain := a, changeFlags := changeFlags l OR 0x4 \<rparr>)))"

definition airspy_mgain :: "pairs_type \<Rightarrow> AirspySource \<Rightarrow> airspy_locals \<Rightarrow> airspy_step" where
  "airspy_mgain m s l =
     (case m ''mgain'' of
        None \<Rightarrow> Inr (s, l)
      | Some v \<Rightarrow>
          if strcasecmp_equal v ''list''
          then Inl (Inr (False, s \<lparr> AirspySource.m_error := ''Available mixer gains (dB): '' @ m_mgainsStr s \<rparr>))
          else
            (case atoi v of
               Inl e \<Rightarrow> Inl (Inl e)
             | Inr a \<Rightarrow>
                 if a \<notin> set m_mgains
                 then Inl (Inr (False, s \<lparr> AirspySource.m_error :=
                        ''Mixer gain not supported. Available gains (dB): '' @ m_mgainsStr s \<rparr>))
                 else Inr (s, l \<lparr> mixGain := a, changeFlags := changeFlags l OR 0x8 \<rparr>)))"

definition airspy_vgain :: "pairs_type \<Rightarrow> AirspySource \<Rightarrow> airspy_locals \<Rightarrow> airspy_step" where
  "airspy_vgain m s l =
     (case m ''vgain'' of
        None \<Rightarrow> Inr (s, l)
      | Some v \<Rightarrow>
          (case atoi v of
             Inl e \<Rightarrow> Inl (Inl e)
           | Inr a \<Rightarrow>
               if strcasecmp_equal v ''list''
               then Inl (Inr (False, s \<lparr> AirspySource.m_error := ''Available VGA gains (dB): '' @ m_vgainsStr s \<rparr>))
               else if a \<notin> set m_vgains
               then Inl (Inr (False, s \<lparr> AirspySource.m_error :=
                      ''VGA gain not supported. Available gains (dB): '' @ m_vgainsStr s \<rparr>))
               else Inr (s, l \<lparr> vgaGain := a, changeFlags := changeFlags l OR 0x10 \<rparr>)))"

text \<open>Lines 556 to 575, the keys \<^verbatim>\<open>antbias\<close>, \<^verbatim>\<open>lagc\<close> and \<^verbatim>\<open>magc\<close>.\<close>

definition airspy_switches :: "pairs_type \<Rightarrow> AirspySource \<Rightarrow> airspy_locals \<Rightarrow> airspy_step" where
  "airspy_switches m s l =
     (case (case m ''antbias'' of None \<Rightarrow> Inr l
            | Some v \<Rightarrow> (case atoi v of Inl e \<Rightarrow> Inl e
                          | Inr a \<Rightarrow> Inr (l \<lparr> antBias := a, changeFlags := changeFlags l OR 0x20 \<rparr>))) of
        Inl e \<Rightarrow> Inl (Inl e)
      | Inr l1 \<Rightarrow>
     (case (case m ''lagc'' of None \<Rightarrow> Inr l1
            | Some v \<Rightarrow> (case atoi v of Inl e \<Rightarrow> Inl e
                          | Inr a \<Rightarrow> Inr (l1 \<lparr> lnaAGC := a, changeFlags := changeFlags l1 OR 0x40 \<rparr>))) of
        Inl e \<Rightarrow> Inl (Inl e)
      | Inr l2 \<Rightarrow>
     (case (case m ''magc'' of None \<Rightarrow> Inr l2
            | Some v \<Rightarrow> (case atoi v of Inl e \<Rightarrow> Inl e
                          | Inr a \<Rightarrow> Inr (l2 \<lparr> mixAGC := a, changeFlags := changeFlags l2 OR 0x80 \<rparr>))) of
        Inl e \<Rightarrow> Inl (Inl e)
      | Inr l3 \<Rightarrow> Inr (s, l3))))"

text \<open>
  Lines 577 to 602, the keys \<^verbatim>\<open>ppmp\<close> and, when it is absent, \<^verbatim>\<open>ppmn\<close>. The local \<open>ppm\<close> is
  a \<^verbatim>\<open>float\<close>: what \<^verbatim>\<open>strtod\<close> returns is rounded when it is stored there.
\<close>

definition airspy_ppm :: "collaborators \<Rightarrow> pairs_type \<Rightarrow> AirspySource \<Rightarrow> airspy_locals \<Rightarrow> airspy_step" where
  "airspy_ppm env m s l =
     (case m ''ppmp'' of
        Some v \<Rightarrow>
          (case strtod env (c_str v) of
             Some x \<Rightarrow> Inr (s \<lparr> AirspySource.m_ppm := round_float env x \<rparr>,
                            l \<lparr> changeFlags := changeFlags l OR 0x1 \<rparr>)
           | None \<Rightarrow> Inr (s, l))
      | None \<Rightarrow>
          (case m ''ppmn'' of
             Some v \<Rightarrow>
               (case strtod env (c_str v) of
                  Some x \<Rightarrow> Inr (s \<lparr> AirspySource.m_ppm := - round_float env x \<rparr>,
                                 l \<lparr> changeFlags := changeFlags l OR 0x1 \<rparr>)
                | None \<Rightarrow> Inr (s, l))
           | None \<Rightarrow> Inr (s, l)))"

text \<open>Lines 604 to 638, the keys \<^verbatim>\<open>fcpos\<close> and \<^verbatim>\<open>decim\<close>.\<close>

definition airspy_fcpos :: "pairs_type \<Rightarrow> AirspySource \<Rightarrow> airspy_locals \<Rightarrow> airspy_step" where
  "airspy_fcpos m s l =
     (case m ''fcpos'' of
        None \<Rightarrow> Inr (s, l)
      | Some v \<Rightarrow>
          (case atoi v of
             Inl e \<Rightarrow> Inl (Inl e)
           | Inr a \<Rightarrow>
               if a < 0 \<or> a > 2
               then Inl (Inr (False, s \<lparr> AirspySource.m_error := ''Invalid center frequency position'' \<rparr>))
               else Inr (s \<lparr> m_fcPos := a \<rparr>, l \<lparr> fcpos := a, changeFlags := changeFlags l OR 0x1 \<rparr>)))"

definition airspy_decim :: "pairs_type \<Rightarrow> AirspySource \<Rightarrow> airspy_locals \<Rightarrow> airspy_step" where
  "airspy_decim m s l =
     (case m ''decim'' of
        None \<Rightarrow> Inr (s, l)
      | Some v \<Rightarrow>
          (case atoi v of
             Inl e \<Rightarrow> Inl (Inl e)
           | Inr a \<Rightarrow>
               if a < 0 \<or> a > 6
               then Inl (Inr (False, s \<lparr> AirspySource.m_error := ''Invalid log2 decimation factor'' \<rparr>))
               else Inr (s \<lparr> AirspySource.m_decim := a \<rparr>, l)))"

text \<open>
  Lines 640 to 653: the tuner frequency, computed in \<^verbatim>\<open>double\<close>, and the call of the inner
  \<^verbatim>\<open>configure\<close>. Line 651 is \<^verbatim>\<open>tuner_freq += tuner_freq * m_ppm * 1e-6\<close>: two products, from
  the left, and a sum.
\<close>

definition airspy_finish :: "collaborators \<Rightarrow> AirspySource \<Rightarrow> airspy_locals \<Rightarrow> error + (bool \<times> AirspySource)" where
  "airspy_finish env s l =
     (let s1 = s \<lparr> AirspySource.m_confFreq := frequency l \<rparr>
      in if (m_fcPos s1 = 0 \<or> m_fcPos s1 = 1) \<and> \<not> sampleRateIndex l < length (AirspySource.m_srates s1)
         then Inl OutOfBounds
         else
           let f = real_of_int (uint (frequency l));
               r = real_of_int (AirspySource.m_srates s1 ! sampleRateIndex l);
               t = (if m_fcPos s1 = 0 then double_add env f (double_mul env (round_double env (1 / 4)) r)
                    else if m_fcPos s1 = 1 then double_sub env f (double_mul env (round_double env (1 / 4)) r)
                    else f);
               tuner_freq = double_add env t
                 (double_mul env (double_mul env t (AirspySource.m_ppm s1))
                    (round_double env (1 / 1000000)))
           in (case double_to_uint32 tuner_freq of
                 Inl e \<Rightarrow> Inl e
               | Inr w \<Rightarrow>
                   AirspySource_configure_flags env s1 (changeFlags l) (sampleRateIndex l) w
                     (antBias l) (lnaGain l) (mixGain l) (vgaGain l) (lnaAGC l) (mixAGC l)))"

text \<open>\<^verbatim>\<open>AirspySource::configure(parsekv::pairs_type& m)\<close>, lines 420 to 654.\<close>

definition AirspySource_configure :: "collaborators \<Rightarrow> AirspySource \<Rightarrow> pairs_type \<Rightarrow> error + (bool \<times> AirspySource)" where
  "AirspySource_configure env s m =
     (case airspy_freq m s (airspy_locals_init s) of Inl r \<Rightarrow> r | Inr (s1, l1) \<Rightarrow>
      case airspy_srate m s1 l1 of Inl r \<Rightarrow> r | Inr (s2, l2) \<Rightarrow>
      case airspy_lgain m s2 l2 of Inl r \<Rightarrow> r | Inr (s3, l3) \<Rightarrow>
      case airspy_mgain m s3 l3 of Inl r \<Rightarrow> r | Inr (s4, l4) \<Rightarrow>
      case airspy_vgain m s4 l4 of Inl r \<Rightarrow> r | Inr (s5, l5) \<Rightarrow>
      case airspy_switches m s5 l5 of Inl r \<Rightarrow> r | Inr (s6, l6) \<Rightarrow>
      case airspy_ppm env m s6 l6 of Inl r \<Rightarrow> r | Inr (s7, l7) \<Rightarrow>
      case airspy_fcpos m s7 l7 of Inl r \<Rightarrow> r | Inr (s8, l8) \<Rightarrow>
      case airspy_decim m s8 l8 of Inl r \<Rightarrow> r | Inr (s9, l9) \<Rightarrow>
      airspy_finish env s9 l9)"

subsection \<open>\<^verbatim>\<open>AirspyHFSource::configure\<close> from a map\<close>

record hf_locals =
  hf_sampleRateIndex :: nat
  hf_frequency :: "32 word"
  hf_changeFlags :: "32 word"

type_synonym hf_step =
  "(error + (bool \<times> AirspyHFSource)) + (AirspyHFSource \<times> hf_locals)"

text \<open>Lines 288 to 301, the key \<^verbatim>\<open>freq\<close>.\<close>

definition hf_freq :: "pairs_type \<Rightarrow> AirspyHFSource \<Rightarrow> hf_locals \<Rightarrow> hf_step" where
  "hf_freq m s l =
     (case m ''freq'' of
        None \<Rightarrow> Inr (s, l)
      | Some v \<Rightarrow>
          (case atoi v of
             Inl e \<Rightarrow> Inl (Inl e)
           | Inr a \<Rightarrow>
               let f = word_of_int a :: 32 word
               in if f < 24000000 \<or> f > 1800000000
                  then Inl (Inr (False, s \<lparr> AirspyHFSource.m_error := ''Invalid frequency'' \<rparr>))
                  else Inr (s, l \<lparr> hf_frequency := f, hf_changeFlags := hf_changeFlags l OR 0x1 \<rparr>)))"

text \<open>Lines 303 to 335, the key \<^verbatim>\<open>srate\<close>.\<close>

definition hf_srate :: "pairs_type \<Rightarrow> AirspyHFSource \<Rightarrow> hf_locals \<Rightarrow> hf_step" where
  "hf_srate m s l =
     (case m ''srate'' of
        None \<Rightarrow> Inr (s, l)
      | Some v \<Rightarrow>
          if strcasecmp_equal v ''list''
          then Inl (Inr (False, s \<lparr> AirspyHFSource.m_error :=
                                      ''Available sample rates (Hz): '' @ AirspyHFSource.m_sratesStr s \<rparr>))
          else
            (case atoi v of
               Inl e \<Rightarrow> Inl (Inl e)
             | Inr a \<Rightarrow>
                 let s1 = s \<lparr> AirspyHFSource.m_sampleRate := word_of_int a \<rparr>;
                     i = srate_loop (AirspyHFSource.m_srates s1) (sint (AirspyHFSource.m_sampleRate s1)) 0
                 in if i = length (AirspyHFSource.m_srates s1)
                    then Inl (Inr (False, s1 \<lparr> AirspyHFSource.m_error := ''Invalid sample rate'',
                                               AirspyHFSource.m_sampleRate := 0 \<rparr>))
                    else Inr (s1, l \<lparr> hf_sampleRateIndex := i,
                                       hf_changeFlags := hf_changeFlags l OR 0x2 \<rparr>)))"

text \<open>Lines 358 to 383, the keys \<^verbatim>\<open>ppmp\<close> and \<^verbatim>\<open>ppmn\<close>; lines 385 to 400, the key \<^verbatim>\<open>decim\<close>.\<close>

definition hf_ppm :: "collaborators \<Rightarrow> pairs_type \<Rightarrow> AirspyHFSource \<Rightarrow> hf_locals \<Rightarrow> hf_step" where
  "hf_ppm env m s l =
     (case m ''ppmp'' of
        Some v \<Rightarrow>
          (case strtod env (c_str v) of
             Some x \<Rightarrow> Inr (s \<lparr> AirspyHFSource.m_ppm := round_float env x \<rparr>,
                            l \<lparr> hf_changeFlags := hf_changeFlags l OR 0x1 \<rparr>)
           | None \<Rightarrow> Inr (s, l))
      | None \<Rightarrow>
          (case m ''ppmn'' of
             Some v \<Rightarrow>
               (case strtod env (c_str v) of
                  Some x \<Rightarrow> Inr (s \<lparr> AirspyHFSource.m_ppm := - round_float env x \<rparr>,
                                 l \<lparr> hf_changeFlags := hf_changeFlags l OR 0x1 \<rparr>)
                | None \<Rightarrow> Inr (s, l))
           | None \<Rightarrow> Inr (s, l)))"

definition hf_decim :: "pairs_type \<Rightarrow> AirspyHFSource \<Rightarrow> hf_locals \<Rightarrow> hf_step" where
  "hf_decim m s l =
     (case m ''decim'' of
        None \<Rightarrow> Inr (s, l)
      | Some v \<Rightarrow>
          (case atoi v of
             Inl e \<Rightarrow> Inl (Inl e)
           | Inr a \<Rightarrow>
               if a < 0 \<or> a > 6
               then Inl (Inr (False, s \<lparr> AirspyHFSource.m_error := ''Invalid log2 decimation factor'' \<rparr>))
               else Inr (s \<lparr> AirspyHFSource.m_decim := a \<rparr>, l)))"

text \<open>Lines 402 to 408; line 406 is \<^verbatim>\<open>tuner_freq += tuner_freq * m_ppm * 1e-6\<close>.\<close>

definition hf_finish :: "collaborators \<Rightarrow> AirspyHFSource \<Rightarrow> hf_locals \<Rightarrow> error + (bool \<times> AirspyHFSource)" where
  "hf_finish env s l =
     (let s1 = s \<lparr> AirspyHFSource.m_confFreq := hf_frequency l \<rparr>;
          t = real_of_int (uint (hf_frequency l));
          tuner_freq = double_add env t
            (double_mul env (double_mul env t (AirspyHFSource.m_ppm s1))
               (round_double env (1 / 1000000)))
      in (case double_to_uint32 tuner_freq of
            Inl e \<Rightarrow> Inl e
          | Inr w \<Rightarrow>
              AirspyHFSource_configure_flags env s1 (hf_changeFlags l) (hf_sampleRateIndex l) w 0 0 0))"

text \<open>\<^verbatim>\<open>AirspyHFSource::configure(parsekv::pairs_type& m)\<close>, lines 278 to 409.\<close>

definition AirspyHFSource_configure :: "collaborators \<Rightarrow> AirspyHFSource \<Rightarrow> pairs_type \<Rightarrow> error + (bool \<times> AirspyHFSource)" where
  "AirspyHFSource_configure env s m =
     (case hf_freq m s \<lparr> hf_sampleRateIndex = 0, hf_frequency = AirspyHFSource.m_confFreq s,
                          hf_changeFlags = 0 \<rparr> of Inl r \<Rightarrow> r | Inr (s1, l1) \<Rightarrow>
      case hf_srate m s1 l1 of Inl r \<Rightarrow> r | Inr (s2, l2) \<Rightarrow>
      case hf_ppm env m s2 l2 of Inl r \<Rightarrow> r | Inr (s3, l3) \<Rightarrow>
      case hf_decim m s3 l3 of Inl r \<Rightarrow> r | Inr (s4, l4) \<Rightarrow>
      hf_finish env s4 l4)"

subsection \<open>Concrete instances for the examples\<close>

text \<open>
  A device that accepts every call, a \<^verbatim>\<open>strtod\<close> that converts nothing, roundings that
  leave a number as it is and a printer of numbers that prints nothing: the examples
  below return before any of them is used.
  The two sources are as their constructors leave them (lines 38 to 50 of each file),
  with a device that offers the rates 2500000 and 10000000 (768000 for the HF device).
\<close>

definition example_env :: collaborators where
  "example_env = \<lparr> device_accepts = (\<lambda>cs c. True), strtod = (\<lambda>s. None),
                   round_double = (\<lambda>x. x), round_float = (\<lambda>x. x), print_number = (\<lambda>n. []) \<rparr>"

definition example_airspy :: AirspySource where
  "example_airspy =
     \<lparr> AirspySource.m_dev = True, AirspySource.m_sampleRate = 10000000, AirspySource.m_frequency = 100000000, AirspySource.m_ppm = 0,
       AirspySource.m_lnaGain = 8, AirspySource.m_mixGain = 8, AirspySource.m_vgaGain = 0, AirspySource.m_biasAnt = False, AirspySource.m_lnaAGC = False,
       AirspySource.m_mixAGC = False, AirspySource.m_srates = [10000000, 2500000], AirspySource.m_sratesStr = ''10000000 2500000 '',
       AirspySource.m_lgainsStr = ''0 1 2 3 4 5 6 7 8 9 10 11 12 13 14 '',
       AirspySource.m_mgainsStr = ''0 1 2 3 4 5 6 7 8 9 10 11 12 13 14 15 '',
       AirspySource.m_vgainsStr = ''0 1 2 3 4 5 6 7 8 9 10 11 12 13 14 15 '',
       AirspySource.m_error = [], AirspySource.m_confFreq = 100000000, AirspySource.m_fcPos = 2, AirspySource.m_decim = 0, AirspySource.dev_calls = [] \<rparr>"

definition example_airspyhf :: AirspyHFSource where
  "example_airspyhf =
     \<lparr> m_dev = True, m_sampleRate = 768000, m_frequency = 10000000, m_ppm = 0,
       m_hfAGC = False, m_hfATT = False, m_hfLNA = False,
       m_srates = [768000], m_sratesStr = ''768000 '', m_error = [],
       m_confFreq = 10000000, m_decim = 0, dev_calls = [] \<rparr>"

section \<open>Properties of the packetizer\<close>


lemma length_u16_bytes [simp]: "length (u16_bytes w) = 2" by (simp add: u16_bytes_def)
lemma length_u32_bytes [simp]: "length (u32_bytes w) = 4" by (simp add: u32_bytes_def)
lemma length_u64_bytes [simp]: "length (u64_bytes w) = 8" by (simp add: u64_bytes_def)

lemma length_MetaData_head_bytes [simp]: "length (MetaData_head_bytes h) = 34"
  by (simp add: MetaData_head_bytes_def)

lemma length_MetaData_bytes [simp]: "length (MetaData_bytes h) = 42"
  by (simp add: MetaData_bytes_def)

lemma length_IQSample_bytes [simp]: "length (IQSample_bytes x) = 4"
  by (simp add: IQSample_bytes_def)

lemma length_vector_bytes [simp]: "length (vector_bytes v) = 4 * length v"
  by (induction v) (simp_all add: vector_bytes_def)

lemma vector_bytes_append: "vector_bytes (xs @ ys) = vector_bytes xs @ vector_bytes ys"
  by (simp add: vector_bytes_def)

lemma drop_vector_bytes: "drop (4 * k) (vector_bytes v) = vector_bytes (drop k v)"
proof (induction v arbitrary: k)
  case Nil
  then show ?case by (simp add: vector_bytes_def)
next
  case (Cons x v)
  show ?case
  proof (cases k)
    case 0
    then show ?thesis by simp
  next
    case (Suc j)
    have "drop (4 * Suc j) (vector_bytes (x # v)) = drop (4 * j) (vector_bytes v)"
      by (simp add: vector_bytes_def)
    with Cons Suc show ?thesis by simp
  qed
qed

lemma take_vector_bytes: "take (4 * k) (vector_bytes v) = vector_bytes (take k v)"
proof (induction v arbitrary: k)
  case Nil
  then show ?case by (simp add: vector_bytes_def)
next
  case (Cons x v)
  show ?case
  proof (cases k)
    case 0
    then show ?thesis by (simp add: vector_bytes_def)
  next
    case (Suc j)
    have "take (4 * Suc j) (vector_bytes (x # v)) = IQSample_bytes x @ take (4 * j) (vector_bytes v)"
      by (simp add: vector_bytes_def)
    with Cons Suc show ?thesis by (simp add: vector_bytes_def)
  qed
qed

lemma SendDataGram_Inr:
  "SendDataGram mem off sz = Inr d \<longleftrightarrow>
     0 \<le> sz \<and> int off + sz \<le> int (length mem) \<and> d = take (nat sz) (drop off mem)"
  by (auto simp: SendDataGram_def)

lemma SendDataGram_length: "SendDataGram mem off sz = Inr d \<Longrightarrow> int (length d) = sz"
  by (auto simp: SendDataGram_def split: if_splits)

lemma send_blocks_unfold:
  "send_blocks mem spb sz nc i = Inr ds \<Longrightarrow> i < unat nc \<Longrightarrow>
     \<exists>d ds'. SendDataGram mem (sizeof_IQSample * (i * unat spb)) sz = Inr d
        \<and> send_blocks mem spb sz nc (Suc i) = Inr ds' \<and> ds = d # ds'"
  by (subst (asm) send_blocks.simps) (auto split: sum.splits)

lemma send_blocks_done:
  "\<not> i < unat nc \<Longrightarrow> send_blocks mem spb sz nc i = Inr []"
  by (subst send_blocks.simps) simp

lemma send_blocks_length:
  "send_blocks mem spb sz nc i = Inr ds \<Longrightarrow> length ds = unat nc - i"
proof (induction mem spb sz nc i arbitrary: ds rule: send_blocks.induct)
  case (1 mem spb sz nc i)
  show ?case
  proof (cases "i < unat nc")
    case False
    with "1.prems" show ?thesis by (simp add: send_blocks_done)
  next
    case True
    from send_blocks_unfold [OF "1.prems" True] obtain d ds' where
      d: "SendDataGram mem (sizeof_IQSample * (i * unat spb)) sz = Inr d" and
      ds': "send_blocks mem spb sz nc (Suc i) = Inr ds'" and
      ds: "ds = d # ds'"
      by blast
    from "1.IH" [OF True d ds'] ds True show ?thesis by simp
  qed
qed

lemma send_blocks_nth:
  "send_blocks mem spb sz nc i = Inr ds \<Longrightarrow> k < length ds \<Longrightarrow>
     SendDataGram mem (sizeof_IQSample * ((i + k) * unat spb)) sz = Inr (ds ! k)"
proof (induction mem spb sz nc i arbitrary: ds k rule: send_blocks.induct)
  case (1 mem spb sz nc i)
  show ?case
  proof (cases "i < unat nc")
    case False
    with "1.prems" show ?thesis by (simp add: send_blocks_done)
  next
    case True
    from send_blocks_unfold [OF "1.prems"(1) True] obtain d ds' where
      d: "SendDataGram mem (sizeof_IQSample * (i * unat spb)) sz = Inr d" and
      ds': "send_blocks mem spb sz nc (Suc i) = Inr ds'" and
      ds: "ds = d # ds'"
      by blast
    show ?thesis
    proof (cases k)
      case 0
      with d ds show ?thesis by simp
    next
      case (Suc j)
      with "1.prems"(2) ds have "j < length ds'" by simp
      from "1.IH" [OF True d ds' this] Suc ds show ?thesis by simp
    qed
  qed
qed

lemma send_blocks_total:
  "(\<And>k. i \<le> k \<Longrightarrow> k < unat nc \<Longrightarrow>
      \<exists>d. SendDataGram mem (sizeof_IQSample * (k * unat spb)) sz = Inr d) \<Longrightarrow>
   \<exists>ds. send_blocks mem spb sz nc i = Inr ds"
proof (induction mem spb sz nc i rule: send_blocks.induct)
  case (1 mem spb sz nc i)
  show ?case
  proof (cases "i < unat nc")
    case False
    then show ?thesis by (simp add: send_blocks_done)
  next
    case True
    from "1.prems" [of i] True obtain d where
      d: "SendDataGram mem (sizeof_IQSample * (i * unat spb)) sz = Inr d" by auto
    have "\<exists>ds. send_blocks mem spb sz nc (Suc i) = Inr ds"
      by (rule "1.IH" [OF True d]) (use "1.prems" in auto)
    then obtain ds where "send_blocks mem spb sz nc (Suc i) = Inr ds" ..
    with d True show ?thesis
      by (subst send_blocks.simps) simp
  qed
qed

lemma samplesPerBlock_Inr:
  "samplesPerBlock s = Inr spb \<longleftrightarrow>
     UDPSink.m_sampleBytes s \<noteq> 0 \<and>
     spb = of_nat (unat (m_udpSize s) div (2 * unat (UDPSink.m_sampleBytes s)))"
  by (auto simp: samplesPerBlock_def unat_eq_0)

lemma MetaData_head_bytes_crc_update [simp]:
  "MetaData_head_bytes (h\<lparr>m_crc := c\<rparr>) = MetaData_head_bytes h"
  by (simp add: MetaData_head_bytes_def)

lemma write_fields_crc_update [simp]:
  "(write_fields tv s n spb c0)\<lparr>m_crc := c\<rparr> = write_fields tv s n spb c"
  by (simp add: write_fields_def)

lemma MetaData_head_bytes_write_fields:
  "MetaData_head_bytes (write_fields tv s n spb c) = MetaData_head_bytes (write_fields tv s n spb c0)"
  by (simp add: MetaData_head_bytes_def write_fields_def)

lemma write_meta_Inr:
  assumes "write_meta ext tv s n = Inr (h, spb, buf)"
  shows "samplesPerBlock s = Inr spb" and "spb \<noteq> 0" and "42 \<le> length (m_bufMeta s)"
    and "h = write_fields tv s n spb (calculate_crc ext (MetaData_head_bytes h))"
    and "buf = MetaData_bytes h @ drop 42 (m_bufMeta s)"
proof -
  from assms obtain spb' where spb': "samplesPerBlock s = Inr spb'"
    by (cases "samplesPerBlock s") (simp_all add: write_meta_def)
  from assms spb' have a: "\<not> length (m_bufMeta s) < 22" "spb' \<noteq> 0" "\<not> length (m_bufMeta s) < sizeof_MetaData"
    by (simp_all add: write_meta_def split: if_splits)
  define c0 where "c0 = bytes_u64 (take 8 (drop 34 (m_bufMeta s)))"
  define c where "c = calculate_crc ext (MetaData_head_bytes (write_fields tv s n spb' c0))"
  from assms spb' a have r: "(h, spb, buf) = (write_fields tv s n spb' c, spb', MetaData_bytes (write_fields tv s n spb' c) @ drop 42 (m_bufMeta s))"
    unfolding write_meta_def c0_def c_def by (auto simp: Let_def sizeof_MetaData_def)
  have hc: "MetaData_head_bytes (write_fields tv s n spb' c) = MetaData_head_bytes (write_fields tv s n spb' c0)"
    by (rule MetaData_head_bytes_write_fields)
  show "samplesPerBlock s = Inr spb" using r spb' by simp
  show "spb \<noteq> 0" using r a by simp
  show "42 \<le> length (m_bufMeta s)" using a by (simp add: sizeof_MetaData_def)
  show "h = write_fields tv s n spb (calculate_crc ext (MetaData_head_bytes h))"
    using r hc by (simp add: c_def)
  show "buf = MetaData_bytes h @ drop 42 (m_bufMeta s)"
    using r by simp
qed

lemma write_resize_frame:
  assumes "write_resize s h = Inr s1"
  shows "m_udpSize s1 = m_udpSize s" and "m_bufMeta s1 = m_bufMeta s" and "m_buf s1 = m_buf s"
    and "UDPSink.m_sampleBytes s1 = UDPSink.m_sampleBytes s"
    and "m_currentMeta s1 = m_currentMeta s"
    and "m_lz4MinInputSize s1 = m_lz4MinInputSize s"
    and "UDPSink.m_nbSamples s1 = MetaData.m_nbSamples h"
  using assms by (auto simp: write_resize_def Let_def split: if_splits)

lemma write_resize_same:
  "MetaData.m_nbSamples h = UDPSink.m_nbSamples s \<Longrightarrow> write_resize s h = Inr s"
  by (simp add: write_resize_def)

lemma write_resize_no_lz4:
  "m_lz4MinInputSize s = 0 \<Longrightarrow> \<exists>s1. write_resize s h = Inr s1"
  by (simp add: write_resize_def Let_def)

lemma write_current_frame:
  "m_udpSize (write_current ext s h) = m_udpSize s"
  "m_bufMeta (write_current ext s h) = m_bufMeta s"
  "m_buf (write_current ext s h) = m_buf s"
  "UDPSink.m_sampleBytes (write_current ext s h) = UDPSink.m_sampleBytes s"
  "UDPSink.m_nbSamples (write_current ext s h) = UDPSink.m_nbSamples s"
  "m_lz4MinInputSize (write_current ext s h) = m_lz4MinInputSize s"
  "m_lz4BufSize (write_current ext s h) = m_lz4BufSize s"
  "m_lz4Buffer (write_current ext s h) = m_lz4Buffer s"
  "allocations (write_current ext s h) = allocations s"
  by (simp_all add: write_current_def)

lemma UDPSink_write_InrD:
  assumes "UDPSink_write ext tv s samples_in = Inr (s', dgs)"
  obtains h spb bufMeta s1 d0 ds buf dr where
    "write_meta ext tv s (length samples_in) = Inr (h, spb, bufMeta)"
    "write_resize (s \<lparr> m_bufMeta := bufMeta \<rparr>) h = Inr s1"
    "SendDataGram (m_bufMeta (write_current ext s1 h)) 0 (sint (m_udpSize (write_current ext s1 h))) = Inr d0"
    "send_blocks (vector_bytes samples_in) spb (sint (m_udpSize (write_current ext s1 h))) (m_nbCompleteBlocks h) 0 = Inr ds"
    "send_remainder (write_current ext s1 h) h spb (vector_bytes samples_in) = Inr (buf, dr)"
    "s' = (write_current ext s1 h) \<lparr> m_buf := buf \<rparr>"
    "dgs = d0 # ds @ dr"
  using assms unfolding UDPSink_write_def Let_def
  by (simp split: sum.splits prod.splits)

lemma UDPSink_write_InrI:
  assumes "write_meta ext tv s (length samples_in) = Inr (h, spb, bufMeta)"
    "write_resize (s \<lparr> m_bufMeta := bufMeta \<rparr>) h = Inr s1"
    "SendDataGram (m_bufMeta (write_current ext s1 h)) 0 (sint (m_udpSize (write_current ext s1 h))) = Inr d0"
    "send_blocks (vector_bytes samples_in) spb (sint (m_udpSize (write_current ext s1 h))) (m_nbCompleteBlocks h) 0 = Inr ds"
    "send_remainder (write_current ext s1 h) h spb (vector_bytes samples_in) = Inr (buf, dr)"
  shows "UDPSink_write ext tv s samples_in = Inr ((write_current ext s1 h) \<lparr> m_buf := buf \<rparr>, d0 # ds @ dr)"
  using assms unfolding UDPSink_write_def Let_def by simp

lemma write_header_Inr:
  "write_header ext tv s samples = Inr h \<longleftrightarrow>
     (\<exists>spb buf. write_meta ext tv s (length samples) = Inr (h, spb, buf))"
  by (auto simp: write_header_def split: sum.splits)

lemma write_fields_sel [simp]:
  "MetaData.m_centerFrequency (write_fields tv s n spb c) = UDPSink.m_centerFrequency s"
  "MetaData.m_sampleRate (write_fields tv s n spb c) = UDPSink.m_sampleRate s"
  "MetaData.m_sampleBytes (write_fields tv s n spb c) = UDPSink.m_sampleBytes s"
  "MetaData.m_sampleBits (write_fields tv s n spb c) = UDPSink.m_sampleBits s"
  "m_blockSize (write_fields tv s n spb c) = ucast (m_udpSize s)"
  "MetaData.m_nbSamples (write_fields tv s n spb c) = of_nat n"
  "m_nbBlocks (write_fields tv s n spb c) = 1"
  "m_remainderSamples (write_fields tv s n spb c) = of_nat (n mod unat spb)"
  "m_nbCompleteBlocks (write_fields tv s n spb c) = of_nat (n div unat spb)"
  "m_tv_sec (write_fields tv s n spb c) = ucast (tv_sec tv)"
  "m_tv_usec (write_fields tv s n spb c) = ucast (tv_usec tv)"
  "m_crc (write_fields tv s n spb c) = c"
  by (simp_all add: write_fields_def)

lemma write_header_InrD:
  assumes "write_header ext tv s samples = Inr h"
  obtains spb where "samplesPerBlock s = Inr spb" "spb \<noteq> 0" "42 \<le> length (m_bufMeta s)"
    "h = write_fields tv s (length samples) spb (calculate_crc ext (MetaData_head_bytes h))"
proof -
  from assms obtain spb buf where "write_meta ext tv s (length samples) = Inr (h, spb, buf)"
    by (auto simp: write_header_Inr)
  from write_meta_Inr [OF this] that show ?thesis by blast
qed

lemma write_meta_eq:
  assumes "samplesPerBlock s = Inr spb" "spb \<noteq> 0" "42 \<le> length (m_bufMeta s)"
  shows "write_meta ext tv s n =
     Inr (write_fields tv s n spb (calculate_crc ext (MetaData_head_bytes (write_fields tv s n spb 0))),
          spb,
          MetaData_bytes (write_fields tv s n spb (calculate_crc ext (MetaData_head_bytes (write_fields tv s n spb 0))))
            @ drop 42 (m_bufMeta s))"
proof -
  have "MetaData_head_bytes (write_fields tv s n spb (bytes_u64 (take 8 (drop 34 (m_bufMeta s)))))
      = MetaData_head_bytes (write_fields tv s n spb 0)"
    by (rule MetaData_head_bytes_write_fields)
  with assms show ?thesis
    by (simp add: write_meta_def Let_def sizeof_MetaData_def)
qed

lemma write_header_eq:
  assumes "samplesPerBlock s = Inr spb" "spb \<noteq> 0" "42 \<le> length (m_bufMeta s)"
  shows "write_header ext tv s samples =
     Inr (write_fields tv s (length samples) spb
            (calculate_crc ext (MetaData_head_bytes (write_fields tv s (length samples) spb 0))))"
  by (simp add: write_header_def write_meta_eq [OF assms])

text \<open>
  Claim C1, as the code has it: the header record every call of \<^verbatim>\<open>write\<close> builds has a block
  count (\<open>m_nbBlocks\<close>, "number of hardware blocks in the frame") of 1, whatever the
  numbers of complete blocks and of remainder samples are.
\<close>

theorem write_nbBlocks_is_one:
  "write_header ext tv s samples_in = Inr h \<Longrightarrow> m_nbBlocks h = 1"
  by (erule write_header_InrD) (metis write_fields_sel(7))

lemma low_nibble_id:
  fixes b :: "8 word"
  assumes "unat b < 16"
  shows "b AND 0xF = b"
proof -
  have m: "(0xF :: 8 word) = mask 4"
    by (simp add: mask_eq_exp_minus_1)
  have "uint b = int (unat b)"
    by (rule uint_nat)
  with assms have "uint b < 16"
    by linarith
  also have "(16 :: int) = 2 ^ 4"
    by simp
  finally have "uint b < 2 ^ 4" .
  then show ?thesis
    unfolding m by (simp only: mask_eq_iff)
qed

lemma unat_of_nat_16: "n < 65536 \<Longrightarrow> unat (of_nat n :: 16 word) = n"
  by (simp add: unat_of_nat)

lemma unat_of_nat_32: "n < 4294967296 \<Longrightarrow> unat (of_nat n :: 32 word) = n"
  by (simp add: unat_of_nat)

lemma unat_ucast_32_16: "unat (w :: 32 word) < 65536 \<Longrightarrow> unat (ucast w :: 16 word) = unat w"
  by (simp add: unsigned_ucast_eq take_bit_nat_eq_self)

text \<open>
  Claim C5, as the code has it: when the datagram size fits its 16 bit header field, the
  sample-encoding byte has no indicator bit set (it is its own low nibble) and the frame
  has fewer than 65536 blocks, the frame length in the header is
  \<open>completeBlockCount * samplesPerBlock + remainderSamples\<close>, with \<open>samplesPerBlock\<close> the
  datagram size divided by twice the low nibble of the sample-encoding byte.
\<close>

theorem write_frame_decomposition:
  assumes h: "write_header ext tv s samples_in = Inr h"
    and udp: "unat (m_udpSize s) < 65536"
    and nib: "unat (MetaData.m_sampleBytes h) < 16"
    and len: "length samples_in <
       65536 * (unat (m_blockSize h) div (2 * unat (MetaData.m_sampleBytes h AND 0xF)))"
  shows "unat (MetaData.m_nbSamples h) =
       unat (m_nbCompleteBlocks h) * (unat (m_blockSize h) div (2 * unat (MetaData.m_sampleBytes h AND 0xF)))
       + unat (m_remainderSamples h)"
proof -
  from h obtain spb where spb: "samplesPerBlock s = Inr spb" and nz: "spb \<noteq> 0"
    and hf: "h = write_fields tv s (length samples_in) spb (calculate_crc ext (MetaData_head_bytes h))"
    by (rule write_header_InrD)
  define n where "n = length samples_in"
  define q where "q = unat (m_udpSize s) div (2 * unat (UDPSink.m_sampleBytes s))"
  have sb: "MetaData.m_sampleBytes h = UDPSink.m_sampleBytes s"
    by (subst hf) simp
  have bs: "unat (m_blockSize h) = unat (m_udpSize s)"
    by (subst hf) (simp add: unat_ucast_32_16 [OF udp])
  have low: "MetaData.m_sampleBytes h AND 0xF = UDPSink.m_sampleBytes s"
    using low_nibble_id [OF nib] sb by simp
  have q_lt: "q < 65536"
    unfolding q_def using udp by (meson div_le_dividend le_less_trans)
  from spb have "spb = of_nat q"
    by (simp add: samplesPerBlock_Inr q_def)
  with q_lt have uspb: "unat spb = q" by (simp add: unat_of_nat_16)
  from len have len': "n < 65536 * q"
    by (simp add: n_def q_def bs low)
  have qpos: "0 < q" using nz uspb by (simp add: unat_gt_0 [symmetric])
  have d: "n div q < 65536"
    using len' qpos by (simp add: less_mult_imp_div_less mult.commute)
  have m: "n mod q < 65536"
    using q_lt qpos by (meson mod_less_divisor less_trans)
  have n32: "n < 4294967296"
    using len' q_lt by linarith
  have 1: "unat (MetaData.m_nbSamples h) = n"
    by (subst hf) (simp add: n_def [symmetric] unat_of_nat_32 [OF n32])
  have 2: "unat (m_nbCompleteBlocks h) = n div q"
    by (subst hf) (simp add: n_def [symmetric] uspb unat_of_nat_16 [OF d])
  have 3: "unat (m_remainderSamples h) = n mod q"
    by (subst hf) (simp add: n_def [symmetric] uspb unat_of_nat_16 [OF m])
  show ?thesis
    by (simp add: 1 2 3 bs low q_def [symmetric])
qed

lemma example_sink_simps [simp]:
  "m_udpSize (example_sink u) = u"
  "UDPSink.m_sampleBytes (example_sink u) = 2"
  "length (m_bufMeta (example_sink u)) = unat u"
  "length (m_buf (example_sink u)) = unat u"
  "m_lz4MinInputSize (example_sink u) = 0"
  "UDPSink.m_nbSamples (example_sink u) = 0"
  "m_buf (example_sink u) = replicate (unat u) 0"
  by (simp_all add: example_sink_def UDPSink_new_def map_replicate_const)

lemma samplesPerBlock_example_1024: "samplesPerBlock (example_sink 1024) = Inr 256"
  by (simp add: samplesPerBlock_def)

lemma write_header_example_1024:
  "write_header example_ext example_tv (example_sink 1024) samples =
     Inr (write_fields example_tv (example_sink 1024) (length samples) 256
            (calculate_crc example_ext
               (MetaData_head_bytes (write_fields example_tv (example_sink 1024) (length samples) 256 0))))"
  by (rule write_header_eq [OF samplesPerBlock_example_1024]) simp_all

text \<open>
  Scenario A of the specification (a datagram size of 1024, two bytes per component, a
  frame of 2000 samples): the header has 7 complete blocks and a remainder of 208, and
  its block count is 1, not 8.
\<close>

theorem scenario_A_blockCount_counterexample:
  "map_sum id header_shape
     (write_header example_ext example_tv (example_sink 1024) (replicate 2000 (IQSample 0 0)))
   = Inr (2000, 1, 7, 208)"
  by (simp add: write_header_example_1024 header_shape_def unat_of_nat)

theorem write_nbBlocks_is_one_witness:
  "\<exists>h. write_header example_ext example_tv (example_sink 1024) (replicate 2000 (IQSample 0 0)) = Inr h
       \<and> m_nbBlocks h = 1"
  using write_nbBlocks_is_one [OF write_header_example_1024 [of "replicate 2000 (IQSample 0 0)"]]
    write_header_example_1024 [of "replicate 2000 (IQSample 0 0)"]
  by blast

text \<open>
  A frame of \<open>65536 * 256\<close> samples at a datagram size of 1024 and two bytes per component:
  the 65536 complete blocks do not fit the 16 bit field, which holds 0, and the remainder
  is 0, so the frame length is not \<open>completeBlockCount * samplesPerBlock + remainderSamples\<close>.
\<close>

theorem frame_decomposition_counterexample:
  "samplesPerBlock (example_sink 1024) = Inr 256 \<and>
   map_sum id header_shape
     (write_header example_ext example_tv (example_sink 1024) (replicate 16777216 (IQSample 0 0)))
   = Inr (16777216, 1, 0, 0)"
  by (simp add: samplesPerBlock_example_1024 write_header_example_1024 header_shape_def unat_of_nat)

theorem write_frame_decomposition_witness:
  "\<exists>h. write_header example_ext example_tv (example_sink 1024) (replicate 2000 (IQSample 0 0)) = Inr h
     \<and> unat (MetaData.m_nbSamples h) = 2000 \<and> unat (m_nbCompleteBlocks h) = 7
     \<and> unat (m_blockSize h) div (2 * unat (MetaData.m_sampleBytes h AND 0xF)) = 256
     \<and> unat (m_remainderSamples h) = 208
     \<and> unat (MetaData.m_nbSamples h) =
         unat (m_nbCompleteBlocks h) * (unat (m_blockSize h) div (2 * unat (MetaData.m_sampleBytes h AND 0xF)))
         + unat (m_remainderSamples h)"
proof -
  let ?b = "replicate 2000 (IQSample 0 0)"
  let ?h = "write_fields example_tv (example_sink 1024) (length ?b) 256
            (calculate_crc example_ext
               (MetaData_head_bytes (write_fields example_tv (example_sink 1024) (length ?b) 256 0)))"
  have h: "write_header example_ext example_tv (example_sink 1024) ?b = Inr ?h"
    by (rule write_header_example_1024)
  have 1: "unat (m_udpSize (example_sink 1024)) < 65536" by simp
  have 2: "unat (MetaData.m_sampleBytes ?h) < 16" by simp
  have 3: "length ?b < 65536 * (unat (m_blockSize ?h) div (2 * unat (MetaData.m_sampleBytes ?h AND 0xF)))"
    by simp
  have 4: "unat (MetaData.m_nbSamples ?h) = 2000" "unat (m_nbCompleteBlocks ?h) = 7"
    "unat (m_blockSize ?h) div (2 * unat (MetaData.m_sampleBytes ?h AND 0xF)) = 256"
    "unat (m_remainderSamples ?h) = 208"
    by (simp_all add: unat_of_nat)
  from write_frame_decomposition [OF h 1 2 3] h 4 show ?thesis by blast
qed

lemma sint_nonneg_eq_unat:
  fixes w :: "32 word"
  assumes "0 \<le> sint w"
  shows "nat (sint w) = unat w"
proof -
  have "sint w < 2 ^ (LENGTH(32) - 1)" by (rule sint_lt)
  then have "sint w < 2 ^ LENGTH(32)" by simp
  with assms have "take_bit LENGTH(32) (sint w) = sint w"
    by (simp add: take_bit_int_eq_self)
  then have "uint w = sint w" by (simp add: uint_sint)
  then show ?thesis by (simp add: unat_eq_nat_uint del: nat_uint_eq)
qed

lemma sint_small_eq_unat:
  fixes w :: "32 word"
  assumes "unat w < 65536"
  shows "sint w = int (unat w)"
proof -
  have u: "uint w = int (unat w)" by (rule uint_nat)
  with assms have lt: "uint w < 65536" by linarith
  have ge: "0 \<le> uint w" by simp
  have "signed_take_bit (LENGTH(32) - Suc 0) (uint w) = uint w"
  proof (rule signed_take_bit_int_eq_self)
    have "(- (2 ^ (LENGTH(32) - Suc 0)) :: int) \<le> 0" by simp
    then show "- (2 ^ (LENGTH(32) - Suc 0)) \<le> uint w"
      using ge by (rule order_trans)
    show "uint w < 2 ^ (LENGTH(32) - Suc 0)"
      using lt by simp
  qed
  then have "sint w = uint w" by (simp add: sint_uint)
  then show ?thesis using u by (rule trans)
qed

lemma bytes_u16_u16_bytes [simp]: "bytes_u16 (u16_bytes w) = w"
  unfolding bytes_u16_def u16_bytes_def
  by (rule bit_word_eqI) (auto simp: bit_simps)

lemma bytes_u32_u32_bytes [simp]: "bytes_u32 (u32_bytes w) = w"
  unfolding bytes_u32_def u32_bytes_def
  apply (rule bit_word_eqI)
  subgoal for n
    apply (cases "n < 8"; cases "n < 16"; cases "n < 24")
           apply (auto simp: bit_simps)
    done
  done

lemma bytes_u64_u64_bytes [simp]: "bytes_u64 (u64_bytes w) = w"
  unfolding bytes_u64_def u64_bytes_def
  apply (rule bit_word_eqI)
  subgoal for n
    apply (cases "n < 8"; cases "n < 16"; cases "n < 24"; cases "n < 32"; cases "n < 40";
        cases "n < 48"; cases "n < 56")
           apply (auto simp: bit_simps)
    done
  done

lemma drop_MetaData_bytes [simp]:
  "drop 34 (MetaData_bytes h) = u64_bytes (m_crc h)"
  unfolding MetaData_bytes_def by simp

lemma take_MetaData_bytes [simp]:
  "take 34 (MetaData_bytes h) = MetaData_head_bytes h"
  unfolding MetaData_bytes_def by simp

lemma MetaData_of_bytes_crc [simp]:
  "m_crc (MetaData_of_bytes (MetaData_bytes h @ rest)) = m_crc h"
  by (simp add: MetaData_of_bytes_def)

text \<open>
  Claim C6: the checksum \<^verbatim>\<open>write\<close> stores in the last field of the header record is the
  checksum of the bytes of the eleven fields before it, which are the first
  \<^verbatim>\<open>sizeof(MetaData) - 8\<close> bytes of the record; this holds of the record and of its bytes in
  \<open>m_bufMeta\<close>, from which the header datagram is sent.
\<close>

theorem write_checksum_covers_preceding_fields:
  assumes "UDPSink_write ext tv s samples_in = Inr (s', dgs)"
  shows "\<exists>h. write_header ext tv s samples_in = Inr h
     \<and> m_crc h = calculate_crc ext (MetaData_head_bytes h)
     \<and> length (MetaData_head_bytes h) = sizeof_MetaData - 8
     \<and> take sizeof_MetaData (m_bufMeta s') = MetaData_head_bytes h @ u64_bytes (m_crc h)
     \<and> m_crc (MetaData_of_bytes (m_bufMeta s'))
         = calculate_crc ext (take (sizeof_MetaData - 8) (m_bufMeta s'))"
proof -
  from assms obtain h spb bufMeta s1 buf where
    wm: "write_meta ext tv s (length samples_in) = Inr (h, spb, bufMeta)" and
    wr: "write_resize (s \<lparr> m_bufMeta := bufMeta \<rparr>) h = Inr s1" and
    s': "s' = (write_current ext s1 h) \<lparr> m_buf := buf \<rparr>"
    by (rule UDPSink_write_InrD)
  have hdr: "write_header ext tv s samples_in = Inr h"
    using wm by (auto simp: write_header_Inr)
  from write_meta_Inr [OF wm] have
    hf: "h = write_fields tv s (length samples_in) spb (calculate_crc ext (MetaData_head_bytes h))"
    and bm: "bufMeta = MetaData_bytes h @ drop 42 (m_bufMeta s)"
    by blast+
  have crc: "m_crc h = calculate_crc ext (MetaData_head_bytes h)"
    by (subst hf) simp
  have b: "m_bufMeta s' = MetaData_bytes h @ drop 42 (m_bufMeta s)"
    using write_resize_frame(2) [OF wr] bm by (simp add: s' write_current_frame)
  have 1: "take sizeof_MetaData (m_bufMeta s') = MetaData_head_bytes h @ u64_bytes (m_crc h)"
    by (simp add: b sizeof_MetaData_def MetaData_bytes_def)
  have 2: "take (sizeof_MetaData - 8) (m_bufMeta s') = MetaData_head_bytes h"
    by (simp add: b sizeof_MetaData_def)
  have 3: "m_crc (MetaData_of_bytes (m_bufMeta s')) = m_crc h"
    by (simp add: b)
  from hdr crc 1 2 3 show ?thesis
    by (intro exI [of _ h]) (simp add: sizeof_MetaData_def)
qed

lemma word16_not_gt_0: "\<not> 0 < (w :: 16 word) \<longleftrightarrow> w = 0"
  by (simp add: word_gt_0)

lemma send_remainder_none:
  "m_remainderSamples h = 0 \<Longrightarrow> send_remainder s h spb mem = Inr (m_buf s, [])"
  by (simp add: send_remainder_def)

lemma send_remainder_InrD:
  assumes "send_remainder s h spb mem = Inr (buf, dr)"
  shows "(m_remainderSamples h = 0 \<and> buf = m_buf s \<and> dr = []) \<or>
     (0 < m_remainderSamples h \<and>
      buf = take (2 * unat (m_remainderSamples h) * unat (MetaData.m_sampleBytes h AND 0xF))
                 (drop (sizeof_IQSample * (unat (m_nbCompleteBlocks h) * unat spb)) mem)
            @ drop (2 * unat (m_remainderSamples h) * unat (MetaData.m_sampleBytes h AND 0xF)) (m_buf s) \<and>
      (\<exists>d. dr = [d] \<and> SendDataGram buf 0 (sint (m_udpSize s)) = Inr d))"
proof (cases "0 < m_remainderSamples h")
  case False
  then have "m_remainderSamples h = 0" by (simp add: word_gt_0)
  with assms show ?thesis by (simp add: send_remainder_none)
next
  case True
  have idx: "nat (int (unat (m_nbCompleteBlocks h)) * int (unat spb)) = unat (m_nbCompleteBlocks h) * unat spb"
    by (simp add: nat_mult_distrib)
  from True assms show ?thesis
    unfolding send_remainder_def Let_def idx
    by (auto split: if_splits sum.splits)
qed

text \<open>
  Claim C7: every datagram a call of \<^verbatim>\<open>write\<close> hands to \<^verbatim>\<open>SendDataGram\<close>, the header as
  well as each payload, is \<open>m_udpSize\<close> bytes long.
\<close>

theorem write_datagrams_have_udpSize:
  assumes "UDPSink_write ext tv s samples_in = Inr (s', dgs)"
  shows "\<forall>d \<in> set dgs. length d = unat (m_udpSize s)"
proof -
  from assms obtain h spb bufMeta s1 d0 ds buf dr where
    wr: "write_resize (s \<lparr> m_bufMeta := bufMeta \<rparr>) h = Inr s1" and
    d0: "SendDataGram (m_bufMeta (write_current ext s1 h)) 0 (sint (m_udpSize (write_current ext s1 h))) = Inr d0" and
    ds: "send_blocks (vector_bytes samples_in) spb (sint (m_udpSize (write_current ext s1 h))) (m_nbCompleteBlocks h) 0 = Inr ds" and
    dr: "send_remainder (write_current ext s1 h) h spb (vector_bytes samples_in) = Inr (buf, dr)" and
    dgs: "dgs = d0 # ds @ dr"
    by (rule UDPSink_write_InrD)
  have udp: "m_udpSize (write_current ext s1 h) = m_udpSize s"
    using write_resize_frame(1) [OF wr] by (simp add: write_current_frame)
  from d0 have nonneg: "0 \<le> sint (m_udpSize s)"
    by (simp add: SendDataGram_Inr udp)
  have sz: "int (length d) = sint (m_udpSize s) \<Longrightarrow> length d = unat (m_udpSize s)" for d :: "byte list"
    using sint_nonneg_eq_unat [OF nonneg] by linarith
  have 0: "length d0 = unat (m_udpSize s)"
    using SendDataGram_length [OF d0] by (intro sz) (simp add: udp)
  have 1: "length d = unat (m_udpSize s)" if "d \<in> set ds" for d
  proof -
    from that obtain k where k: "k < length ds" "d = ds ! k"
      by (auto simp: in_set_conv_nth)
    from SendDataGram_length [OF send_blocks_nth [OF ds k(1)]] k(2) show ?thesis
      by (intro sz) (simp add: udp)
  qed
  have 2: "length d = unat (m_udpSize s)" if "d \<in> set dr" for d
  proof -
    from send_remainder_InrD [OF dr] that
    have "SendDataGram buf 0 (sint (m_udpSize (write_current ext s1 h))) = Inr d"
      by auto
    from SendDataGram_length [OF this] show ?thesis
      by (intro sz) (simp add: udp)
  qed
  from 0 1 2 show ?thesis by (auto simp: dgs)
qed

lemma write_nbSamples_after:
  assumes "UDPSink_write ext tv s samples_in = Inr (s', dgs)"
  shows "UDPSink.m_nbSamples s' = of_nat (length samples_in)"
proof -
  from assms obtain h spb bufMeta s1 buf where
    wm: "write_meta ext tv s (length samples_in) = Inr (h, spb, bufMeta)" and
    wr: "write_resize (s \<lparr> m_bufMeta := bufMeta \<rparr>) h = Inr s1" and
    s': "s' = (write_current ext s1 h) \<lparr> m_buf := buf \<rparr>"
    by (rule UDPSink_write_InrD)
  from write_meta_Inr(4) [OF wm] have "MetaData.m_nbSamples h = of_nat (length samples_in)"
    by (metis write_fields_sel(6))
  with write_resize_frame(7) [OF wr] show ?thesis
    by (simp add: s' write_current_frame)
qed

lemma write_same_nbSamples_keeps_lz4:
  assumes "UDPSink_write ext tv s samples_in = Inr (s', dgs)"
    and "UDPSink.m_nbSamples s = of_nat (length samples_in)"
  shows "m_lz4Buffer s' = m_lz4Buffer s \<and> m_lz4BufSize s' = m_lz4BufSize s
     \<and> allocations s' = allocations s"
proof -
  from assms(1) obtain h spb bufMeta s1 buf where
    wm: "write_meta ext tv s (length samples_in) = Inr (h, spb, bufMeta)" and
    wr: "write_resize (s \<lparr> m_bufMeta := bufMeta \<rparr>) h = Inr s1" and
    s': "s' = (write_current ext s1 h) \<lparr> m_buf := buf \<rparr>"
    by (rule UDPSink_write_InrD)
  from write_meta_Inr(4) [OF wm] have "MetaData.m_nbSamples h = of_nat (length samples_in)"
    by (metis write_fields_sel(6))
  with assms(2) have "MetaData.m_nbSamples h = UDPSink.m_nbSamples (s \<lparr> m_bufMeta := bufMeta \<rparr>)"
    by simp
  from write_resize_same [OF this] wr have "s1 = s \<lparr> m_bufMeta := bufMeta \<rparr>"
    by simp
  then show ?thesis
    by (simp add: s' write_current_frame)
qed

text \<open>
  Claim C8: of two consecutive calls of \<^verbatim>\<open>write\<close> with frames of the same length, the second
  leaves the LZ4 scratch buffer as it is: the pointer \<open>m_lz4Buffer\<close>, the size
  \<open>m_lz4BufSize\<close> and the number of allocations made are unchanged. So the buffer is
  allocated again only by a call whose frame length differs from the one before.
\<close>

theorem write_resizes_only_on_length_change:
  assumes "UDPSink_write ext tv1 s frame1 = Inr (s1, dgs1)"
    and "UDPSink_write ext tv2 s1 frame2 = Inr (s2, dgs2)"
    and "length frame1 = length frame2"
  shows "m_lz4Buffer s2 = m_lz4Buffer s1 \<and> m_lz4BufSize s2 = m_lz4BufSize s1
     \<and> allocations s2 = allocations s1"
proof -
  from write_nbSamples_after [OF assms(1)] assms(3)
  have "UDPSink.m_nbSamples s1 = of_nat (length frame2)" by simp
  with assms(2) show ?thesis by (rule write_same_nbSamples_keeps_lz4)
qed

lemma SendDataGram_whole:
  "int (length mem) = sz \<Longrightarrow> SendDataGram mem 0 sz = Inr mem"
  by (auto simp: SendDataGram_def)

lemma take_drop_vector_bytes:
  "take (4 * k) (drop (4 * j) (vector_bytes v)) = vector_bytes (take k (drop j v))"
  by (simp only: drop_vector_bytes take_vector_bytes)

lemma write_resize_ok:
  "m_lz4MinInputSize s = 0 \<or> MetaData.m_nbSamples h * 2 * ucast (UDPSink.m_sampleBytes s) \<noteq> (0 :: 32 word)
     \<Longrightarrow> \<exists>s1. write_resize s h = Inr s1"
  by (auto simp: write_resize_def Let_def)

text \<open>
  What a call of \<^verbatim>\<open>write\<close> does when the sink is as the constructor leaves it (both arrays
  \<open>m_udpSize\<close> bytes long), the header says two bytes per component, as the samples have
  in memory, and the datagram size is a multiple of four between 42 and 65535.
\<close>

lemma write_sane:
  fixes s :: UDPSink and samples_in :: "IQSample list" and ext :: externals and tv :: timeval
  defines "n \<equiv> length samples_in"
    and "spb \<equiv> unat (m_udpSize s) div 4"
  defines "h \<equiv> write_fields tv s n (of_nat spb)
            (calculate_crc ext (MetaData_head_bytes (write_fields tv s n (of_nat spb) 0)))"
  defines "nc \<equiv> unat (m_nbCompleteBlocks h)" and "r \<equiv> unat (m_remainderSamples h)"
  assumes lens: "length (m_bufMeta s) = unat (m_udpSize s)" "length (m_buf s) = unat (m_udpSize s)"
    and sb: "UDPSink.m_sampleBytes s = 2"
    and udp: "42 \<le> unat (m_udpSize s)" "unat (m_udpSize s) < 65536" "4 dvd unat (m_udpSize s)"
    and wr: "write_resize (s \<lparr> m_bufMeta := MetaData_bytes h @ drop 42 (m_bufMeta s) \<rparr>) h = Inr s1"
  shows "write_header ext tv s samples_in = Inr h"
    and "UDPSink_write ext tv s samples_in =
      Inr ((write_current ext s1 h)
             \<lparr> m_buf := (if 0 < r then vector_bytes (take r (drop (nc * spb) samples_in))
                                           @ drop (4 * r) (m_buf s)
                         else m_buf s) \<rparr>,
           (MetaData_bytes h @ drop 42 (m_bufMeta s))
           # map (\<lambda>i. vector_bytes (take spb (drop (i * spb) samples_in))) [0..<nc]
           @ (if 0 < r then [vector_bytes (take r (drop (nc * spb) samples_in)) @ drop (4 * r) (m_buf s)]
              else []))"
    and "nc = (n div spb) mod 65536" and "r = n mod spb" and "0 < spb"
    and "4 * spb = unat (m_udpSize s)" and "nc * spb + r \<le> n"
proof -
  have spb_lt: "spb < 16384" using udp(2) by (simp add: spb_def)
  have spb_pos: "0 < spb" using udp(1) by (simp add: spb_def)
  have spb4: "4 * spb = unat (m_udpSize s)" using udp(3) by (simp add: spb_def)
  have uspb: "unat (of_nat spb :: 16 word) = spb"
    using spb_lt by (simp add: unat_of_nat)
  have spbw: "samplesPerBlock s = Inr (of_nat spb)"
    by (simp add: samplesPerBlock_def sb spb_def)
  have nz: "(of_nat spb :: 16 word) \<noteq> 0"
    using uspb spb_pos by (metis unat_0 less_numeral_extra(3))
  have l42: "42 \<le> length (m_bufMeta s)" using lens udp by simp
  have wm: "write_meta ext tv s n = Inr (h, of_nat spb, MetaData_bytes h @ drop 42 (m_bufMeta s))"
    unfolding h_def by (rule write_meta_eq [OF spbw nz l42])
  show hdr: "write_header ext tv s samples_in = Inr h"
    using wm by (simp add: write_header_def n_def)
  have "m_nbCompleteBlocks h = of_nat (n div spb)"
    by (simp add: h_def uspb)
  then show nc_eq: "nc = (n div spb) mod 65536"
    by (simp add: nc_def unat_of_nat)
  have "n mod spb < spb"
    using spb_pos by (rule mod_less_divisor)
  with spb_lt have "n mod spb < 65536"
    by linarith
  moreover have "m_remainderSamples h = of_nat (n mod spb)"
    by (simp add: h_def uspb)
  ultimately show r_eq: "r = n mod spb"
    by (simp add: r_def unat_of_nat)
  show "0 < spb" by (rule spb_pos)
  show "4 * spb = unat (m_udpSize s)" by (rule spb4)
  let ?s2 = "write_current ext s1 h"
  let ?bm = "MetaData_bytes h @ drop 42 (m_bufMeta s)"
  have udp2: "m_udpSize ?s2 = m_udpSize s"
    using write_resize_frame(1) [OF wr] by (simp add: write_current_frame)
  have bm2: "m_bufMeta ?s2 = ?bm"
    using write_resize_frame(2) [OF wr] by (simp add: write_current_frame)
  have buf2: "m_buf ?s2 = m_buf s"
    using write_resize_frame(3) [OF wr] by (simp add: write_current_frame)
  have su: "sint (m_udpSize s) = int (unat (m_udpSize s))"
    by (rule sint_small_eq_unat [OF udp(2)])
  have lbm: "length ?bm = unat (m_udpSize s)"
    using lens(1) udp(1) by simp
  have d0: "SendDataGram (m_bufMeta ?s2) 0 (sint (m_udpSize ?s2)) = Inr ?bm"
    unfolding udp2 bm2 by (rule SendDataGram_whole) (simp only: lbm su)
  have nc_le: "nc \<le> n div spb"
    unfolding nc_eq by (rule mod_less_eq_dividend)
  have nc_spb: "nc * spb \<le> n"
  proof -
    have "nc * spb \<le> (n div spb) * spb" using nc_le by (rule mult_le_mono1)
    also have "\<dots> \<le> n" by (rule div_times_less_eq_dividend)
    finally show ?thesis .
  qed
  have "(n div spb) * spb + n mod spb = n"
    by (rule div_mult_mod_eq)
  moreover have "nc * spb \<le> (n div spb) * spb"
    using nc_le by (rule mult_le_mono1)
  ultimately show tot: "nc * spb + r \<le> n"
    unfolding r_eq by linarith
  have blk: "SendDataGram (vector_bytes samples_in) (sizeof_IQSample * (k * spb)) (sint (m_udpSize s))
      = Inr (vector_bytes (take spb (drop (k * spb) samples_in)))" if "k < nc" for k
  proof -
    from that have "Suc k \<le> n div spb" using nc_le by simp
    then have "Suc k * spb \<le> (n div spb) * spb" by (rule mult_le_mono1)
    also have "\<dots> \<le> n" by (rule div_times_less_eq_dividend)
    finally have le: "k * spb + spb \<le> n" by simp
    then have "4 * (k * spb) + 4 * spb \<le> 4 * n" by simp
    then have "4 * (k * spb) + unat (m_udpSize s) \<le> length (vector_bytes samples_in)"
      by (simp add: spb4 n_def)
    then have fits: "int (sizeof_IQSample * (k * spb)) + sint (m_udpSize s)
        \<le> int (length (vector_bytes samples_in))"
      unfolding su sizeof_IQSample_def by linarith
    have "take (nat (sint (m_udpSize s))) (drop (sizeof_IQSample * (k * spb)) (vector_bytes samples_in))
        = take (4 * spb) (drop (4 * (k * spb)) (vector_bytes samples_in))"
      by (simp add: su spb4 sizeof_IQSample_def)
    also have "\<dots> = vector_bytes (take spb (drop (k * spb) samples_in))"
      by (rule take_drop_vector_bytes)
    finally show ?thesis
      using fits by (simp add: SendDataGram_def su)
  qed
  have "\<exists>ds. send_blocks (vector_bytes samples_in) (of_nat spb) (sint (m_udpSize s)) (m_nbCompleteBlocks h) 0 = Inr ds"
    by (rule send_blocks_total) (use blk in \<open>auto simp: uspb nc_def\<close>)
  then obtain ds where
    ds: "send_blocks (vector_bytes samples_in) (of_nat spb) (sint (m_udpSize s)) (m_nbCompleteBlocks h) 0 = Inr ds" ..
  have lds: "length ds = nc"
    using send_blocks_length [OF ds] by (simp add: nc_def)
  have "ds = map (\<lambda>i. vector_bytes (take spb (drop (i * spb) samples_in))) [0..<nc]"
  proof (rule nth_equalityI)
    show "length ds = length (map (\<lambda>i. vector_bytes (take spb (drop (i * spb) samples_in))) [0..<nc])"
      by (simp add: lds)
    fix k
    assume k: "k < length ds"
    from send_blocks_nth [OF ds k] blk [of k] k
    show "ds ! k = map (\<lambda>i. vector_bytes (take spb (drop (i * spb) samples_in))) [0..<nc] ! k"
      by (simp add: lds uspb)
  qed
  with ds have sb_ok: "send_blocks (vector_bytes samples_in) (of_nat spb) (sint (m_udpSize ?s2)) (m_nbCompleteBlocks h) 0
      = Inr (map (\<lambda>i. vector_bytes (take spb (drop (i * spb) samples_in))) [0..<nc])"
    by (simp add: udp2)
  let ?rb = "vector_bytes (take r (drop (nc * spb) samples_in)) @ drop (4 * r) (m_buf s)"
  have sr: "send_remainder ?s2 h (of_nat spb) (vector_bytes samples_in)
      = Inr (if 0 < r then ?rb else m_buf s, if 0 < r then [?rb] else [])"
  proof (cases "0 < r")
    case False
    then have "m_remainderSamples h = 0"
      by (simp add: r_def unat_eq_0)
    with False show ?thesis
      by (simp add: send_remainder_none buf2)
  next
    case True
    then have rpos: "0 < m_remainderSamples h"
      by (simp add: r_def unat_gt_0 word_gt_0)
    have r_lt: "r < spb" unfolding r_eq using spb_pos by simp
    have sbh: "MetaData.m_sampleBytes h = 2" by (simp add: h_def sb)
    have len: "2 * unat (m_remainderSamples h) * unat (MetaData.m_sampleBytes h AND 0xF) = 4 * r"
      by (simp add: sbh r_def)
    have idx: "int (unat (m_nbCompleteBlocks h)) * int (unat (of_nat spb :: 16 word)) = int (nc * spb)"
      by (simp add: nc_def uspb)
    have nc_lt: "nc < 65536" unfolding nc_eq by simp
    have "nc * spb < 65536 * 16384"
      using nc_lt spb_lt by (rule mult_strict_mono) simp_all
    then have lt31: "nc * spb < 2147483648" by simp
    have "int nc * int spb = int (nc * spb)" by simp
    also have "\<dots> < int 2147483648" using lt31 by (simp only: of_nat_less_iff)
    finally have "int nc * int spb < 2147483648" by simp
    then have no_ovf: "\<not> 2 ^ 31 \<le> int (nc * spb)" by simp
    from tot have rd_ok: "\<not> length (vector_bytes samples_in) < sizeof_IQSample * nat (int (nc * spb)) + 4 * r"
      unfolding nat_int by (simp add: sizeof_IQSample_def n_def)
    have wr_ok: "\<not> length (m_buf ?s2) < 4 * r"
      using r_lt spb4 by (simp add: buf2 lens)
    have cp: "take (4 * r) (drop (sizeof_IQSample * nat (int (nc * spb))) (vector_bytes samples_in))
        = vector_bytes (take r (drop (nc * spb) samples_in))"
      unfolding nat_int sizeof_IQSample_def by (rule take_drop_vector_bytes)
    have "length (take r (drop (nc * spb) samples_in)) = r"
      using tot by (simp add: n_def)
    then have lrb: "int (length ?rb) = sint (m_udpSize ?s2)"
      using r_lt spb4 by (simp add: lens udp2 su)
    have "SendDataGram ?rb 0 (sint (m_udpSize ?s2)) = Inr ?rb"
      by (rule SendDataGram_whole [OF lrb])
    with True rpos no_ovf rd_ok wr_ok show ?thesis
      unfolding send_remainder_def Let_def len idx cp buf2
      by simp
  qed
  have "UDPSink_write ext tv s samples_in =
      Inr (?s2 \<lparr> m_buf := (if 0 < r then ?rb else m_buf s) \<rparr>,
           ?bm # map (\<lambda>i. vector_bytes (take spb (drop (i * spb) samples_in))) [0..<nc]
               @ (if 0 < r then [?rb] else []))"
    by (rule UDPSink_write_InrI [OF wm [unfolded n_def] wr d0 sb_ok sr])
  then show "UDPSink_write ext tv s samples_in =
      Inr ((write_current ext s1 h)
             \<lparr> m_buf := (if 0 < r then vector_bytes (take r (drop (nc * spb) samples_in))
                                           @ drop (4 * r) (m_buf s)
                         else m_buf s) \<rparr>,
           (MetaData_bytes h @ drop 42 (m_bufMeta s))
           # map (\<lambda>i. vector_bytes (take spb (drop (i * spb) samples_in))) [0..<nc]
           @ (if 0 < r then [vector_bytes (take r (drop (nc * spb) samples_in)) @ drop (4 * r) (m_buf s)]
              else []))" .
qed

lemma write_ready:
  fixes s :: UDPSink and samples_in :: "IQSample list" and ext :: externals and tv :: timeval
  defines "n \<equiv> length samples_in"
    and "spb \<equiv> unat (m_udpSize s) div 4"
  defines "h \<equiv> write_fields tv s n (of_nat spb)
            (calculate_crc ext (MetaData_head_bytes (write_fields tv s n (of_nat spb) 0)))"
  defines "nc \<equiv> unat (m_nbCompleteBlocks h)" and "r \<equiv> unat (m_remainderSamples h)"
  assumes ready: "UDPSink_ready s"
  obtains s1 where
    "write_resize (s \<lparr> m_bufMeta := MetaData_bytes h @ drop 42 (m_bufMeta s) \<rparr>) h = Inr s1"
    "write_header ext tv s samples_in = Inr h"
    "UDPSink_write ext tv s samples_in =
      Inr ((write_current ext s1 h)
             \<lparr> m_buf := (if 0 < r then vector_bytes (take r (drop (nc * spb) samples_in))
                                           @ drop (4 * r) (m_buf s)
                         else m_buf s) \<rparr>,
           (MetaData_bytes h @ drop 42 (m_bufMeta s))
           # map (\<lambda>i. vector_bytes (take spb (drop (i * spb) samples_in))) [0..<nc]
           @ (if 0 < r then [vector_bytes (take r (drop (nc * spb) samples_in)) @ drop (4 * r) (m_buf s)]
              else []))"
    "nc = (n div spb) mod 65536" "r = n mod spb" "0 < spb"
    "4 * spb = unat (m_udpSize s)" "nc * spb + r \<le> n"
proof -
  from ready have lens: "length (m_bufMeta s) = unat (m_udpSize s)" "length (m_buf s) = unat (m_udpSize s)"
    and sb: "UDPSink.m_sampleBytes s = 2"
    and udp: "42 \<le> unat (m_udpSize s)" "unat (m_udpSize s) < 65536" "4 dvd unat (m_udpSize s)"
    and lz4: "m_lz4MinInputSize s = 0"
    by (simp_all add: UDPSink_ready_def)
  have "m_lz4MinInputSize (s \<lparr> m_bufMeta := MetaData_bytes h @ drop 42 (m_bufMeta s) \<rparr>) = 0"
    using lz4 by simp
  then have "\<exists>s1. write_resize (s \<lparr> m_bufMeta := MetaData_bytes h @ drop 42 (m_bufMeta s) \<rparr>) h = Inr s1"
    by (intro write_resize_ok) simp
  then obtain s1 where
    wr: "write_resize (s \<lparr> m_bufMeta := MetaData_bytes h @ drop 42 (m_bufMeta s) \<rparr>) h = Inr s1" ..
  note ws = write_sane [where s = s and samples_in = samples_in and ext = ext and tv = tv
      and ?s1.0 = s1, folded spb_def n_def, folded h_def, folded nc_def r_def, OF lens sb udp wr]
  show ?thesis
    by (rule that [OF wr ws])
qed

lemma word16_gt_0_unat: "0 < (w :: 16 word) \<longleftrightarrow> 0 < unat w"
  by (simp add: word_gt_0 unat_gt_0)

text \<open>
  Claim C2, as the code has it. The sink must be ready: both arrays as the constructor
  allocates them, a sample encoding of two bytes per component, which is what a
  component of a sample has in memory, a datagram size that is a multiple of four, holds
  a header record and fits its 16 bit field, and no LZ4 input size. Then, for every
  frame, a call of \<^verbatim>\<open>write\<close> returns, and what it sends is, in this order: one header
  datagram, which starts with the bytes of the header record; then \<open>m_nbCompleteBlocks\<close>
  payload datagrams, the \<open>i\<close>-th being the bytes of the \<open>samplesPerBlock\<close> consecutive samples
  from index \<open>i * samplesPerBlock\<close> on; then one more datagram if and only if
  \<open>m_remainderSamples\<close> is positive. So it sends
  \<open>1 + m_nbCompleteBlocks + (1 if m_remainderSamples > 0 else 0)\<close> datagrams, where
  \<open>m_nbCompleteBlocks\<close> is the frame length divided by \<open>samplesPerBlock\<close>, modulo 65536 as
  the field has 16 bits, and \<open>m_remainderSamples\<close> is what the division leaves.
\<close>

theorem write_emits_header_blocks_remainder:
  assumes "UDPSink_ready s"
  shows "\<exists>s' h hdr pay rest.
      UDPSink_write ext tv s samples_in = Inr (s', hdr # pay @ rest)
    \<and> write_header ext tv s samples_in = Inr h
    \<and> samplesPerBlock s = Inr (of_nat (unat (m_udpSize s) div 4))
    \<and> take sizeof_MetaData hdr = MetaData_bytes h
    \<and> length pay = unat (m_nbCompleteBlocks h)
    \<and> (\<forall>i < length pay. pay ! i =
           vector_bytes (take (unat (m_udpSize s) div 4) (drop (i * (unat (m_udpSize s) div 4)) samples_in)))
    \<and> length rest = (if 0 < m_remainderSamples h then 1 else 0)
    \<and> length (hdr # pay @ rest)
        = 1 + unat (m_nbCompleteBlocks h) + (if 0 < m_remainderSamples h then 1 else 0)
    \<and> unat (m_nbCompleteBlocks h) = (length samples_in div (unat (m_udpSize s) div 4)) mod 65536
    \<and> unat (m_remainderSamples h) = length samples_in mod (unat (m_udpSize s) div 4)"
proof -
  define spb where "spb = unat (m_udpSize s) div 4"
  define h where "h = write_fields tv s (length samples_in) (of_nat spb)
            (calculate_crc ext (MetaData_head_bytes (write_fields tv s (length samples_in) (of_nat spb) 0)))"
  define nc where "nc = unat (m_nbCompleteBlocks h)"
  define r where "r = unat (m_remainderSamples h)"
  let ?hdr = "MetaData_bytes h @ drop 42 (m_bufMeta s)"
  let ?pay = "map (\<lambda>i. vector_bytes (take spb (drop (i * spb) samples_in))) [0..<nc]"
  let ?rest = "if 0 < r then [vector_bytes (take r (drop (nc * spb) samples_in)) @ drop (4 * r) (m_buf s)]
              else []"
  from assms obtain s1 where
    hdr: "write_header ext tv s samples_in = Inr h" and
    w: "UDPSink_write ext tv s samples_in =
      Inr ((write_current ext s1 h)
             \<lparr> m_buf := (if 0 < r then vector_bytes (take r (drop (nc * spb) samples_in))
                                           @ drop (4 * r) (m_buf s)
                         else m_buf s) \<rparr>, ?hdr # ?pay @ ?rest)" and
    nc: "nc = (length samples_in div spb) mod 65536" and r: "r = length samples_in mod spb"
    unfolding spb_def h_def nc_def r_def by (rule write_ready)
  have 6: "unat (m_nbCompleteBlocks h) = (length samples_in div (unat (m_udpSize s) div 4)) mod 65536"
    using nc by (simp add: nc_def spb_def)
  have 7: "unat (m_remainderSamples h) = length samples_in mod (unat (m_udpSize s) div 4)"
    using r by (simp add: r_def spb_def)
  have spbw: "samplesPerBlock s = Inr (of_nat (unat (m_udpSize s) div 4))"
    using assms by (simp add: samplesPerBlock_def UDPSink_ready_def)
  have 1: "take sizeof_MetaData ?hdr = MetaData_bytes h"
    by (simp add: sizeof_MetaData_def)
  have 2: "length ?pay = unat (m_nbCompleteBlocks h)"
    by (simp add: nc_def)
  have 3: "\<forall>i < length ?pay. ?pay ! i =
           vector_bytes (take (unat (m_udpSize s) div 4) (drop (i * (unat (m_udpSize s) div 4)) samples_in))"
    by (simp add: spb_def)
  have 4: "length ?rest = (if 0 < m_remainderSamples h then 1 else 0)"
    by (simp add: r_def word16_gt_0_unat)
  have 5: "length (?hdr # ?pay @ ?rest)
        = 1 + unat (m_nbCompleteBlocks h) + (if 0 < m_remainderSamples h then 1 else 0)"
    using 2 4 by simp
  from w hdr spbw 1 2 3 4 5 6 7 show ?thesis by blast
qed

lemma write_ready_remainder:
  fixes s :: UDPSink and samples_in :: "IQSample list"
  defines "spb \<equiv> unat (m_udpSize s) div 4"
  defines "nc \<equiv> (length samples_in div spb) mod 65536" and "r \<equiv> length samples_in mod spb"
  assumes ready: "UDPSink_ready s" and pos: "0 < r"
  shows "\<exists>s' dgs. UDPSink_write ext tv s samples_in = Inr (s', dgs)
     \<and> last dgs = vector_bytes (take r (drop (nc * spb) samples_in)) @ drop (4 * r) (m_buf s)
     \<and> length (take r (drop (nc * spb) samples_in)) = r
     \<and> m_buf s' = last dgs"
proof -
  define h where "h = write_fields tv s (length samples_in) (of_nat spb)
            (calculate_crc ext (MetaData_head_bytes (write_fields tv s (length samples_in) (of_nat spb) 0)))"
  define nc' where "nc' = unat (m_nbCompleteBlocks h)"
  define r' where "r' = unat (m_remainderSamples h)"
  let ?rb = "vector_bytes (take r' (drop (nc' * spb) samples_in)) @ drop (4 * r') (m_buf s)"
  from ready obtain s1 where
    w: "UDPSink_write ext tv s samples_in =
      Inr ((write_current ext s1 h) \<lparr> m_buf := (if 0 < r' then ?rb else m_buf s) \<rparr>,
           (MetaData_bytes h @ drop 42 (m_bufMeta s))
           # map (\<lambda>i. vector_bytes (take spb (drop (i * spb) samples_in))) [0..<nc']
           @ (if 0 < r' then [?rb] else []))" and
    nc': "nc' = (length samples_in div spb) mod 65536" and r': "r' = length samples_in mod spb" and
    tot: "nc' * spb + r' \<le> length samples_in"
    unfolding spb_def h_def nc'_def r'_def by (rule write_ready)
  have e: "nc' = nc" "r' = r" by (simp_all add: nc' r' nc_def r_def)
  from tot have "length (take r (drop (nc * spb) samples_in)) = r"
    unfolding e by simp
  with w pos show ?thesis
    unfolding e by simp
qed

lemma send_remainder_posD:
  assumes "send_remainder s h spb mem = Inr (buf, dr)" and "0 < m_remainderSamples h"
  shows "sizeof_IQSample * (unat (m_nbCompleteBlocks h) * unat spb)
           + 2 * unat (m_remainderSamples h) * unat (MetaData.m_sampleBytes h AND 0xF) \<le> length mem"
    and "2 * unat (m_remainderSamples h) * unat (MetaData.m_sampleBytes h AND 0xF) \<le> length (m_buf s)"
    and "buf = take (2 * unat (m_remainderSamples h) * unat (MetaData.m_sampleBytes h AND 0xF))
                 (drop (sizeof_IQSample * (unat (m_nbCompleteBlocks h) * unat spb)) mem)
               @ drop (2 * unat (m_remainderSamples h) * unat (MetaData.m_sampleBytes h AND 0xF)) (m_buf s)"
    and "\<exists>d. dr = [d] \<and> SendDataGram buf 0 (sint (m_udpSize s)) = Inr d"
proof -
  have idx: "nat (int (unat (m_nbCompleteBlocks h)) * int (unat spb)) = unat (m_nbCompleteBlocks h) * unat spb"
    by (simp add: nat_mult_distrib)
  from assms have
    "sizeof_IQSample * (unat (m_nbCompleteBlocks h) * unat spb)
           + 2 * unat (m_remainderSamples h) * unat (MetaData.m_sampleBytes h AND 0xF) \<le> length mem
     \<and> 2 * unat (m_remainderSamples h) * unat (MetaData.m_sampleBytes h AND 0xF) \<le> length (m_buf s)
     \<and> buf = take (2 * unat (m_remainderSamples h) * unat (MetaData.m_sampleBytes h AND 0xF))
                 (drop (sizeof_IQSample * (unat (m_nbCompleteBlocks h) * unat spb)) mem)
               @ drop (2 * unat (m_remainderSamples h) * unat (MetaData.m_sampleBytes h AND 0xF)) (m_buf s)
     \<and> (\<exists>d. dr = [d] \<and> SendDataGram buf 0 (sint (m_udpSize s)) = Inr d)"
    unfolding send_remainder_def Let_def idx
    by (auto split: if_splits sum.splits)
  then show
    "sizeof_IQSample * (unat (m_nbCompleteBlocks h) * unat spb)
           + 2 * unat (m_remainderSamples h) * unat (MetaData.m_sampleBytes h AND 0xF) \<le> length mem"
    and "2 * unat (m_remainderSamples h) * unat (MetaData.m_sampleBytes h AND 0xF) \<le> length (m_buf s)"
    and "buf = take (2 * unat (m_remainderSamples h) * unat (MetaData.m_sampleBytes h AND 0xF))
                 (drop (sizeof_IQSample * (unat (m_nbCompleteBlocks h) * unat spb)) mem)
               @ drop (2 * unat (m_remainderSamples h) * unat (MetaData.m_sampleBytes h AND 0xF)) (m_buf s)"
    and "\<exists>d. dr = [d] \<and> SendDataGram buf 0 (sint (m_udpSize s)) = Inr d"
    by blast+
qed

text \<open>
  Claim C3, as the code has it. Take a call of \<^verbatim>\<open>write\<close> that returns, on a sink whose
  scratch array \<open>m_buf\<close> is \<open>m_udpSize\<close> bytes long, as the constructor allocates it, and
  whose sample encoding says two bytes per component in its low nibble, which is what a
  component has in memory. When \<open>m_remainderSamples\<close> is positive, the last datagram sent
  holds the bytes of the \<open>m_remainderSamples\<close> samples that follow the complete blocks,
  followed, up to the datagram size, by the bytes \<open>m_buf\<close> held at those positions before
  the call. The array is overwritten at its start only and is never cleared, so these
  bytes are what earlier calls left there; the array after the call is that datagram.
\<close>

theorem write_remainder_keeps_old_tail:
  assumes w: "UDPSink_write ext tv s samples_in = Inr (s', dgs)"
    and hdr: "write_header ext tv s samples_in = Inr h"
    and pos: "0 < m_remainderSamples h"
    and spb: "samplesPerBlock s = Inr spb"
    and two: "UDPSink.m_sampleBytes s AND 0xF = 2"
    and lb: "length (m_buf s) = unat (m_udpSize s)"
  shows "last dgs =
         vector_bytes (take (unat (m_remainderSamples h))
              (drop (unat (m_nbCompleteBlocks h) * unat spb) samples_in))
         @ drop (4 * unat (m_remainderSamples h)) (m_buf s)
     \<and> length (take (unat (m_remainderSamples h))
              (drop (unat (m_nbCompleteBlocks h) * unat spb) samples_in))
         = unat (m_remainderSamples h)
     \<and> length (last dgs) = unat (m_udpSize s)
     \<and> m_buf s' = last dgs"
proof -
  define r where "r = unat (m_remainderSamples h)"
  define k where "k = unat (m_nbCompleteBlocks h) * unat spb"
  from w obtain h' spb' bufMeta s1 d0 ds buf dr where
    wm: "write_meta ext tv s (length samples_in) = Inr (h', spb', bufMeta)" and
    wr: "write_resize (s \<lparr> m_bufMeta := bufMeta \<rparr>) h' = Inr s1" and
    sr: "send_remainder (write_current ext s1 h') h' spb' (vector_bytes samples_in) = Inr (buf, dr)" and
    s': "s' = (write_current ext s1 h') \<lparr> m_buf := buf \<rparr>" and
    dgs: "dgs = d0 # ds @ dr"
    by (rule UDPSink_write_InrD)
  from hdr wm have h: "h' = h" by (simp add: write_header_def)
  from write_meta_Inr(1) [OF wm] spb have e: "spb' = spb" by simp
  from write_meta_Inr(4) [OF wm] have "MetaData.m_sampleBytes h' = UDPSink.m_sampleBytes s"
    by (metis write_fields_sel(3))
  with two have len: "2 * unat (m_remainderSamples h) * unat (MetaData.m_sampleBytes h AND 0xF) = 4 * r"
    by (simp add: h r_def)
  have buf2: "m_buf (write_current ext s1 h) = m_buf s"
    using write_resize_frame(3) [OF wr] by (simp add: write_current_frame h)
  have udp2: "m_udpSize (write_current ext s1 h) = m_udpSize s"
    using write_resize_frame(1) [OF wr] by (simp add: write_current_frame h)
  note d = send_remainder_posD [OF sr [unfolded h e] pos, unfolded len buf2 udp2 sizeof_IQSample_def,
      folded k_def]
  have fit: "k + r \<le> length samples_in" using d(1) by simp
  have cp: "take (4 * r) (drop (4 * k) (vector_bytes samples_in)) = vector_bytes (take r (drop k samples_in))"
    by (rule take_drop_vector_bytes)
  let ?rb = "vector_bytes (take r (drop k samples_in)) @ drop (4 * r) (m_buf s)"
  have b: "buf = ?rb" using d(3) unfolding cp .
  have lt: "length (take r (drop k samples_in)) = r" using fit by simp
  have lrb: "length ?rb = unat (m_udpSize s)" using lt d(2) lb by simp
  from d(4) obtain x where x: "dr = [x]" "SendDataGram buf 0 (sint (m_udpSize s)) = Inr x"
    by blast
  from x(2) have nn: "0 \<le> sint (m_udpSize s)" and xe: "x = take (nat (sint (m_udpSize s))) buf"
    by (simp_all add: SendDataGram_Inr)
  have "x = ?rb"
    unfolding xe sint_nonneg_eq_unat [OF nn] b using lrb by simp
  then have l: "last dgs = ?rb" by (simp add: dgs x(1))
  have "m_buf s' = ?rb" by (simp add: s' b)
  with l lt lrb show ?thesis
    unfolding r_def k_def by simp
qed

lemma write_ready_after:
  assumes "UDPSink_ready s" and "UDPSink_write ext tv s samples_in = Inr (s', dgs)"
  shows "UDPSink_ready s'"
proof -
  define spb where "spb = unat (m_udpSize s) div 4"
  define h where "h = write_fields tv s (length samples_in) (of_nat spb)
            (calculate_crc ext (MetaData_head_bytes (write_fields tv s (length samples_in) (of_nat spb) 0)))"
  define nc where "nc = unat (m_nbCompleteBlocks h)"
  define r where "r = unat (m_remainderSamples h)"
  let ?rb = "vector_bytes (take r (drop (nc * spb) samples_in)) @ drop (4 * r) (m_buf s)"
  from assms(1) obtain s1 where
    wr: "write_resize (s \<lparr> m_bufMeta := MetaData_bytes h @ drop 42 (m_bufMeta s) \<rparr>) h = Inr s1" and
    w: "UDPSink_write ext tv s samples_in =
      Inr ((write_current ext s1 h) \<lparr> m_buf := (if 0 < r then ?rb else m_buf s) \<rparr>,
           (MetaData_bytes h @ drop 42 (m_bufMeta s))
           # map (\<lambda>i. vector_bytes (take spb (drop (i * spb) samples_in))) [0..<nc]
           @ (if 0 < r then [?rb] else []))" and
    r: "r = length samples_in mod spb" and
    spb: "0 < spb" "4 * spb = unat (m_udpSize s)" and
    tot: "nc * spb + r \<le> length samples_in"
    unfolding spb_def h_def nc_def r_def by (rule write_ready)
  from w assms(2) have s': "s' = (write_current ext s1 h) \<lparr> m_buf := (if 0 < r then ?rb else m_buf s) \<rparr>"
    by simp
  from assms(1) have lens: "length (m_bufMeta s) = unat (m_udpSize s)" "length (m_buf s) = unat (m_udpSize s)"
    and udp: "42 \<le> unat (m_udpSize s)"
    by (simp_all add: UDPSink_ready_def)
  have "r < spb" unfolding r using spb(1) by (rule mod_less_divisor)
  then have r4: "4 * r \<le> unat (m_udpSize s)" using spb(2) by linarith
  from tot have lt: "length (take r (drop (nc * spb) samples_in)) = r" by simp
  have 1: "length (m_buf s') = unat (m_udpSize s)"
    using lens(2) r4 lt by (simp add: s')
  have 2: "length (m_bufMeta s') = unat (m_udpSize s)"
    using write_resize_frame(2) [OF wr] lens(1) udp by (simp add: s' write_current_frame)
  have 3: "m_udpSize s' = m_udpSize s" "UDPSink.m_sampleBytes s' = UDPSink.m_sampleBytes s"
    "m_lz4MinInputSize s' = m_lz4MinInputSize s"
    using write_resize_frame [OF wr] by (simp_all add: s' write_current_frame)
  from assms(1) 1 2 3 show ?thesis
    by (simp add: UDPSink_ready_def)
qed

lemma write_resize_reallocates:
  assumes "MetaData.m_nbSamples h \<noteq> UDPSink.m_nbSamples s" and "0 < m_lz4MinInputSize s"
    and "write_resize s h = Inr s1"
  shows "allocations s1 = Suc (allocations s) \<and> m_lz4Buffer s1 = Suc (allocations s)"
  using assms by (auto simp: write_resize_def Let_def split: if_splits)

lemma example_sink_ready: "UDPSink_ready (example_sink 44)"
  by (simp add: UDPSink_ready_def)

lemma write_header_example_44:
  "write_header example_ext example_tv (example_sink 44) samples =
     Inr (write_fields example_tv (example_sink 44) (length samples) 11
            (calculate_crc example_ext
               (MetaData_head_bytes (write_fields example_tv (example_sink 44) (length samples) 11 0))))"
  by (rule write_header_eq) (simp_all add: samplesPerBlock_def)

lemma write_ready_succeeds:
  assumes "UDPSink_ready s"
  shows "\<exists>s' dgs. UDPSink_write ext tv s samples_in = Inr (s', dgs)"
  using assms by (rule write_ready) blast

lemma example_write_12:
  "\<exists>s' dgs. UDPSink_write example_ext example_tv (example_sink 44) (replicate 12 (IQSample 1 2)) = Inr (s', dgs)
     \<and> length dgs = 3"
proof -
  let ?b = "replicate 12 (IQSample 1 2)"
  define h where "h = write_fields example_tv (example_sink 44) (length ?b)
       (of_nat (unat (m_udpSize (example_sink 44)) div 4))
       (calculate_crc example_ext (MetaData_head_bytes (write_fields example_tv (example_sink 44) (length ?b)
          (of_nat (unat (m_udpSize (example_sink 44)) div 4)) 0)))"
  have nc: "unat (m_nbCompleteBlocks h) = 1" and r: "unat (m_remainderSamples h) = 1"
    by (simp_all add: h_def unat_of_nat)
  from example_sink_ready obtain s' dgs where
    "UDPSink_write example_ext example_tv (example_sink 44) ?b = Inr (s', dgs)" "length dgs = 3"
    by (rule write_ready [where samples_in = ?b and ext = example_ext and tv = example_tv])
       (simp add: h_def [symmetric] nc r)
  then show ?thesis by blast
qed

theorem write_emits_header_blocks_remainder_witness:
  "UDPSink_ready (example_sink 44) \<and>
   (\<exists>s' h hdr pay rest.
      UDPSink_write example_ext example_tv (example_sink 44) (replicate 12 (IQSample 1 2))
        = Inr (s', hdr # pay @ rest)
    \<and> write_header example_ext example_tv (example_sink 44) (replicate 12 (IQSample 1 2)) = Inr h
    \<and> samplesPerBlock (example_sink 44) = Inr 11
    \<and> unat (m_nbCompleteBlocks h) = 1 \<and> unat (m_remainderSamples h) = 1
    \<and> take sizeof_MetaData hdr = MetaData_bytes h
    \<and> pay = [vector_bytes (replicate 11 (IQSample 1 2))]
    \<and> length rest = 1
    \<and> length (hdr # pay @ rest) = 3)"
proof -
  let ?b = "replicate 12 (IQSample 1 2)"
  from write_emits_header_blocks_remainder [OF example_sink_ready, of example_ext example_tv ?b]
  obtain s' h hdr pay rest where
    w: "UDPSink_write example_ext example_tv (example_sink 44) ?b = Inr (s', hdr # pay @ rest)" and
    h: "write_header example_ext example_tv (example_sink 44) ?b = Inr h" and
    spb: "samplesPerBlock (example_sink 44) = Inr (of_nat (unat (m_udpSize (example_sink 44)) div 4))" and
    t: "take sizeof_MetaData hdr = MetaData_bytes h" and
    lp: "length pay = unat (m_nbCompleteBlocks h)" and
    p: "\<forall>i < length pay. pay ! i =
           vector_bytes (take (unat (m_udpSize (example_sink 44)) div 4)
             (drop (i * (unat (m_udpSize (example_sink 44)) div 4)) ?b))" and
    lr: "length rest = (if 0 < m_remainderSamples h then 1 else 0)" and
    l: "length (hdr # pay @ rest)
        = 1 + unat (m_nbCompleteBlocks h) + (if 0 < m_remainderSamples h then 1 else 0)" and
    nc': "unat (m_nbCompleteBlocks h)
        = (length ?b div (unat (m_udpSize (example_sink 44)) div 4)) mod 65536" and
    r': "unat (m_remainderSamples h) = length ?b mod (unat (m_udpSize (example_sink 44)) div 4)"
    by blast
  from spb have spb11: "samplesPerBlock (example_sink 44) = Inr 11" by simp
  from nc' have nc: "unat (m_nbCompleteBlocks h) = 1" by simp
  from r' have r1: "unat (m_remainderSamples h) = 1" by simp
  then have r: "0 < m_remainderSamples h" by (simp add: word16_gt_0_unat)
  from lp nc have lp1: "length pay = 1" by simp
  with p have "pay ! 0 = vector_bytes (replicate 11 (IQSample 1 2))" by simp
  with lp1 have pay: "pay = [vector_bytes (replicate 11 (IQSample 1 2))]"
    by (cases pay) simp_all
  from lr r have lr1: "length rest = 1" by simp
  from l nc r have l3: "length (hdr # pay @ rest) = 3" by simp
  from w h spb11 nc r1 t pay lr1 l3 example_sink_ready show ?thesis by blast
qed

lemma example_second_call:
  obtains s1 dgs1 where
    "UDPSink_write example_ext example_tv (example_sink 44) [IQSample 1 1, IQSample 2 2, IQSample 3 3]
       = Inr (s1, dgs1)"
    "UDPSink_ready s1" "m_udpSize s1 = 44"
    "m_buf s1 = [1, 0, 1, 0, 2, 0, 2, 0, 3, 0, 3, 0] @ replicate 32 0"
proof -
  let ?b1 = "[IQSample 1 1, IQSample 2 2, IQSample 3 3]"
  from write_ready_remainder [OF example_sink_ready, of ?b1 example_ext example_tv]
  obtain s1 dgs1 where
    w1: "UDPSink_write example_ext example_tv (example_sink 44) ?b1 = Inr (s1, dgs1)" and
    l1: "last dgs1 = vector_bytes ?b1 @ drop 12 (m_buf (example_sink 44))" and
    b1: "m_buf s1 = last dgs1"
    by auto
  have ready1: "UDPSink_ready s1"
    by (rule write_ready_after [OF example_sink_ready w1])
  have udp1: "m_udpSize s1 = 44"
  proof -
    from w1 obtain h spb bufMeta s0 buf where
      wr: "write_resize (example_sink 44 \<lparr> m_bufMeta := bufMeta \<rparr>) h = Inr s0" and
      s1: "s1 = (write_current example_ext s0 h) \<lparr> m_buf := buf \<rparr>"
      by (rule UDPSink_write_InrD)
    from write_resize_frame(1) [OF wr] show ?thesis
      by (simp add: s1 write_current_frame)
  qed
  have "m_buf s1 = [1, 0, 1, 0, 2, 0, 2, 0, 3, 0, 3, 0] @ replicate 32 0"
    unfolding b1 l1 by (simp add: vector_bytes_def IQSample_bytes_def u16_bytes_def)
  with w1 ready1 udp1 show ?thesis by (rule that)
qed

text \<open>
  The second of two calls on the same sink: the first frame has left its three samples
  in \<open>m_buf\<close>, and the last datagram of the second frame, of one sample, holds that sample
  and then what the first frame left.
\<close>

theorem write_remainder_keeps_old_tail_witness:
  "\<exists>s1 dgs1 s2 dgs2 h.
      UDPSink_write example_ext example_tv (example_sink 44) [IQSample 1 1, IQSample 2 2, IQSample 3 3]
        = Inr (s1, dgs1)
    \<and> m_buf s1 = [1, 0, 1, 0, 2, 0, 2, 0, 3, 0, 3, 0] @ replicate 32 0
    \<and> UDPSink_write example_ext example_tv s1 [IQSample 7 7] = Inr (s2, dgs2)
    \<and> write_header example_ext example_tv s1 [IQSample 7 7] = Inr h
    \<and> 0 < m_remainderSamples h
    \<and> samplesPerBlock s1 = Inr 11
    \<and> UDPSink.m_sampleBytes s1 AND 0xF = 2
    \<and> length (m_buf s1) = unat (m_udpSize s1)
    \<and> last dgs2 = [7, 0, 7, 0, 2, 0, 2, 0, 3, 0, 3, 0] @ replicate 32 0
    \<and> m_buf s2 = last dgs2"
proof -
  let ?b2 = "[IQSample 7 7]"
  obtain s1 dgs1 where
    w1: "UDPSink_write example_ext example_tv (example_sink 44) [IQSample 1 1, IQSample 2 2, IQSample 3 3]
       = Inr (s1, dgs1)" and
    ready1: "UDPSink_ready s1" and udp1: "m_udpSize s1 = 44" and
    b1: "m_buf s1 = [1, 0, 1, 0, 2, 0, 2, 0, 3, 0, 3, 0] @ replicate 32 0"
    by (rule example_second_call)
  from ready1 have sb1: "UDPSink.m_sampleBytes s1 = 2" and lb1: "length (m_buf s1) = unat (m_udpSize s1)"
    by (simp_all add: UDPSink_ready_def)
  have spb1: "samplesPerBlock s1 = Inr 11"
    by (simp add: samplesPerBlock_def sb1 udp1)
  have "(2 :: 8 word) AND 0xF = 2" by (rule low_nibble_id) simp
  then have two: "UDPSink.m_sampleBytes s1 AND 0xF = 2" by (simp add: sb1)
  define h where "h = write_fields example_tv s1 (length ?b2) (of_nat (unat (m_udpSize s1) div 4))
       (calculate_crc example_ext (MetaData_head_bytes (write_fields example_tv s1 (length ?b2)
          (of_nat (unat (m_udpSize s1) div 4)) 0)))"
  from ready1 obtain s2 dgs2 where
    hdr: "write_header example_ext example_tv s1 ?b2 = Inr h" and
    w2: "UDPSink_write example_ext example_tv s1 ?b2 = Inr (s2, dgs2)"
    unfolding h_def by (rule write_ready [where samples_in = ?b2 and ext = example_ext and tv = example_tv])
  have r: "unat (m_remainderSamples h) = 1" and nc: "unat (m_nbCompleteBlocks h) = 0"
    by (simp_all add: h_def udp1 unat_of_nat)
  then have pos: "0 < m_remainderSamples h" by (simp add: word16_gt_0_unat)
  from write_remainder_keeps_old_tail [OF w2 hdr pos spb1 two lb1]
  have l: "last dgs2 = vector_bytes (take (unat (m_remainderSamples h))
              (drop (unat (m_nbCompleteBlocks h) * unat (11 :: 16 word)) ?b2))
         @ drop (4 * unat (m_remainderSamples h)) (m_buf s1)"
    and b: "m_buf s2 = last dgs2"
    by simp_all
  from l have "last dgs2 = [7, 0, 7, 0, 2, 0, 2, 0, 3, 0, 3, 0] @ replicate 32 0"
    unfolding r nc b1 by (simp add: vector_bytes_def IQSample_bytes_def u16_bytes_def)
  with w1 b1 w2 hdr pos spb1 two lb1 b show ?thesis by blast
qed

text \<open>
  Two calls on the same sink, its arrays zeroed at first. The first frame has three
  samples, the second one sample, \<open>IQSample 5 5\<close>: the last datagram of the second call
  holds that sample, then the bytes of the second and third samples of the first frame,
  and zeros only after them. Zero padding would give the sample followed by 40 zero bytes.
\<close>

theorem remainder_not_zero_padded_counterexample:
  "\<exists>s1 dgs1 s2 dgs2.
      UDPSink_write example_ext example_tv (example_sink 44) [IQSample 1 1, IQSample 2 2, IQSample 3 3]
        = Inr (s1, dgs1)
    \<and> UDPSink_write example_ext example_tv s1 [IQSample 5 5] = Inr (s2, dgs2)
    \<and> last dgs2 = [5, 0, 5, 0, 2, 0, 2, 0, 3, 0, 3, 0] @ replicate 32 0
    \<and> last dgs2 \<noteq> vector_bytes [IQSample 5 5] @ replicate 40 0"
proof -
  let ?b1 = "[IQSample 1 1, IQSample 2 2, IQSample 3 3]"
  let ?b2 = "[IQSample 5 5]"
  from write_ready_remainder [OF example_sink_ready, of ?b1 example_ext example_tv]
  obtain s1 dgs1 where
    w1: "UDPSink_write example_ext example_tv (example_sink 44) ?b1 = Inr (s1, dgs1)" and
    l1: "last dgs1 = vector_bytes ?b1 @ drop 12 (m_buf (example_sink 44))" and
    b1: "m_buf s1 = last dgs1"
    by auto
  have ready1: "UDPSink_ready s1"
    by (rule write_ready_after [OF example_sink_ready w1])
  from w1 have "UDPSink_write example_ext example_tv (example_sink 44) ?b1 = Inr (s1, dgs1)" .
  have udp1: "m_udpSize s1 = 44"
  proof -
    from w1 obtain h spb bufMeta s0 buf where
      wr: "write_resize (example_sink 44 \<lparr> m_bufMeta := bufMeta \<rparr>) h = Inr s0" and
      s1: "s1 = (write_current example_ext s0 h) \<lparr> m_buf := buf \<rparr>"
      by (rule UDPSink_write_InrD)
    from write_resize_frame(1) [OF wr] show ?thesis
      by (simp add: s1 write_current_frame)
  qed
  from write_ready_remainder [OF ready1, of ?b2 example_ext example_tv]
  obtain s2 dgs2 where
    w2: "UDPSink_write example_ext example_tv s1 ?b2 = Inr (s2, dgs2)" and
    l2: "last dgs2 = vector_bytes ?b2 @ drop 4 (m_buf s1)"
    by (auto simp: udp1)
  have "last dgs2 = [5, 0, 5, 0, 2, 0, 2, 0, 3, 0, 3, 0] @ replicate 32 0"
    unfolding l2 b1 l1
    by (simp add: vector_bytes_def IQSample_bytes_def u16_bytes_def)
  moreover have "[5, 0, 5, 0, 2, 0, 2, 0, 3, 0, 3, 0] @ replicate 32 (0 :: byte)
      \<noteq> vector_bytes ?b2 @ replicate 40 0"
  proof
    assume "[5, 0, 5, 0, 2, 0, 2, 0, 3, 0, 3, 0] @ replicate 32 (0 :: byte)
      = vector_bytes ?b2 @ replicate 40 0"
    then have "([5, 0, 5, 0, 2, 0, 2, 0, 3, 0, 3, 0] @ replicate 32 (0 :: byte)) ! 4
      = (vector_bytes ?b2 @ replicate 40 0) ! 4"
      by (rule arg_cong)
    then show False
      by (simp add: nth_append vector_bytes_def IQSample_bytes_def u16_bytes_def)
  qed
  ultimately show ?thesis
    using w1 w2 by metis
qed

theorem write_checksum_covers_preceding_fields_witness:
  "\<exists>s' dgs. UDPSink_write example_ext example_tv (example_sink 44) (replicate 12 (IQSample 1 2)) = Inr (s', dgs)
     \<and> (\<exists>h. write_header example_ext example_tv (example_sink 44) (replicate 12 (IQSample 1 2)) = Inr h
     \<and> m_crc h = example_crc (MetaData_head_bytes h)
     \<and> length (MetaData_head_bytes h) = 34
     \<and> take 42 (m_bufMeta s') = MetaData_head_bytes h @ u64_bytes (m_crc h)
     \<and> m_crc (MetaData_of_bytes (m_bufMeta s')) = example_crc (take 34 (m_bufMeta s')))"
proof -
  let ?b = "replicate 12 (IQSample 1 2)"
  from write_ready_succeeds [OF example_sink_ready, of example_ext example_tv ?b]
  obtain s' dgs where w: "UDPSink_write example_ext example_tv (example_sink 44) ?b = Inr (s', dgs)"
    by blast
  from write_checksum_covers_preceding_fields [OF w] w show ?thesis
    by (simp add: sizeof_MetaData_def example_ext_def)
qed

theorem write_datagrams_have_udpSize_witness:
  "\<exists>s' dgs. UDPSink_write example_ext example_tv (example_sink 44) (replicate 12 (IQSample 1 2)) = Inr (s', dgs)
     \<and> length dgs = 3 \<and> (\<forall>d \<in> set dgs. length d = 44)"
proof -
  let ?b = "replicate 12 (IQSample 1 2)"
  from example_write_12
  obtain s' dgs where w: "UDPSink_write example_ext example_tv (example_sink 44) ?b = Inr (s', dgs)"
    and l: "length dgs = 3"
    by blast
  from write_datagrams_have_udpSize [OF w] w l show ?thesis
    by auto
qed

section \<open>The device sources reject a bad frequency and a bad sample rate\<close>

lemma atoi_Inr:
  assumes "- (2 ^ 31) \<le> atoi_value v" and "atoi_value v < 2 ^ 31"
  shows "atoi v = Inr (atoi_value v)"
  using assms by (simp add: atoi_def)

lemma atoi_Inl:
  assumes "2 ^ 31 \<le> atoi_value v"
  shows "atoi v = Inl AtoiOverflow"
  using assms by (simp add: atoi_def)

lemma uint_word_of_int_32:
  fixes a :: int
  assumes "- (2 ^ 31) \<le> a" and "a < 2 ^ 31"
  shows "uint (word_of_int a :: 32 word) = (if 0 \<le> a then a else a + 4294967296)"
proof (cases "0 \<le> a")
  case True
  then have "a mod 4294967296 = a" using assms by simp
  then show ?thesis using True by (simp add: uint_word_of_int)
next
  case False
  have "(a + 4294967296) mod 4294967296 = a + 4294967296"
    using assms False by (intro mod_pos_pos_trivial) simp_all
  then have "a mod 4294967296 = a + 4294967296" by simp
  then show ?thesis using False by (simp add: uint_word_of_int)
qed

lemma sint_word_of_int_32:
  fixes a :: int
  assumes "- (2 ^ 31) \<le> a" and "a < 2 ^ 31"
  shows "sint (word_of_int a :: 32 word) = a"
  using assms by (simp add: sint_sbintrunc' signed_take_bit_int_eq_self)

lemma freq_out_of_range:
  fixes a :: int
  assumes "- (2 ^ 31) \<le> a" and "a < 2 ^ 31" and "a < 24000000 \<or> 1800000000 < a"
  shows "(word_of_int a :: 32 word) < 24000000 \<or> (word_of_int a :: 32 word) > 1800000000"
  using assms by (auto simp add: word_less_alt uint_word_of_int_32)

lemma freq_in_range:
  fixes a :: int
  assumes "24000000 \<le> a" and "a \<le> 1800000000"
  shows "\<not> ((word_of_int a :: 32 word) < 24000000 \<or> (word_of_int a :: 32 word) > 1800000000)"
proof -
  have "- (2 ^ 31) \<le> a" and "a < 2 ^ 31" using assms by simp_all
  then have "uint (word_of_int a :: 32 word) = a"
    using assms by (simp add: uint_word_of_int_32)
  then show ?thesis using assms by (simp add: word_less_alt)
qed

lemma srate_loop_end: "srate_loop rs x i = i + length rs \<longleftrightarrow> x \<notin> set rs"
proof (induction rs arbitrary: i)
  case Nil
  then show ?case by simp
next
  case (Cons r rs)
  show ?case
  proof (cases "r = x")
    case True
    then show ?thesis by simp
  next
    case False
    then show ?thesis using Cons [of "Suc i"] by auto
  qed
qed

lemma srate_loop_missing: "srate_loop rs x 0 = length rs \<longleftrightarrow> x \<notin> set rs"
  using srate_loop_end [of rs x 0] by simp

lemma airspy_freq_invalid:
  assumes "m ''freq'' = Some v"
    and "- (2 ^ 31) \<le> atoi_value v" and "atoi_value v < 2 ^ 31"
    and "atoi_value v < 24000000 \<or> 1800000000 < atoi_value v"
  shows "airspy_freq m s l = Inl (Inr (False, s \<lparr> AirspySource.m_error := ''Invalid frequency'' \<rparr>))"
  using freq_out_of_range [OF assms(2,3,4)] assms(1) atoi_Inr [OF assms(2,3)]
  by (simp add: airspy_freq_def)

lemma hf_freq_invalid:
  assumes "m ''freq'' = Some v"
    and "- (2 ^ 31) \<le> atoi_value v" and "atoi_value v < 2 ^ 31"
    and "atoi_value v < 24000000 \<or> 1800000000 < atoi_value v"
  shows "hf_freq m s l = Inl (Inr (False, s \<lparr> AirspyHFSource.m_error := ''Invalid frequency'' \<rparr>))"
  using freq_out_of_range [OF assms(2,3,4)] assms(1) atoi_Inr [OF assms(2,3)]
  by (simp add: hf_freq_def)

lemma airspy_freq_pass:
  assumes "m ''freq'' = None
      \<or> (\<exists>vf. m ''freq'' = Some vf \<and> 24000000 \<le> atoi_value vf \<and> atoi_value vf \<le> 1800000000)"
  shows "\<exists>l'. airspy_freq m s l = Inr (s, l')"
  using assms
proof
  assume "m ''freq'' = None"
  then show ?thesis by (simp add: airspy_freq_def)
next
  assume "\<exists>vf. m ''freq'' = Some vf \<and> 24000000 \<le> atoi_value vf \<and> atoi_value vf \<le> 1800000000"
  then obtain vf where vf: "m ''freq'' = Some vf" "24000000 \<le> atoi_value vf" "atoi_value vf \<le> 1800000000"
    by blast
  have "atoi vf = Inr (atoi_value vf)" using vf by (intro atoi_Inr) simp_all
  then show ?thesis using vf(1) freq_in_range [OF vf(2,3)] by (simp add: airspy_freq_def)
qed

lemma hf_freq_pass:
  assumes "m ''freq'' = None
      \<or> (\<exists>vf. m ''freq'' = Some vf \<and> 24000000 \<le> atoi_value vf \<and> atoi_value vf \<le> 1800000000)"
  shows "\<exists>l'. hf_freq m s l = Inr (s, l')"
  using assms
proof
  assume "m ''freq'' = None"
  then show ?thesis by (simp add: hf_freq_def)
next
  assume "\<exists>vf. m ''freq'' = Some vf \<and> 24000000 \<le> atoi_value vf \<and> atoi_value vf \<le> 1800000000"
  then obtain vf where vf: "m ''freq'' = Some vf" "24000000 \<le> atoi_value vf" "atoi_value vf \<le> 1800000000"
    by blast
  have "atoi vf = Inr (atoi_value vf)" using vf by (intro atoi_Inr) simp_all
  then show ?thesis using vf(1) freq_in_range [OF vf(2,3)] by (simp add: hf_freq_def)
qed

lemma airspy_srate_invalid:
  assumes "m ''srate'' = Some v" and "\<not> strcasecmp_equal v ''list''"
    and "- (2 ^ 31) \<le> atoi_value v" and "atoi_value v < 2 ^ 31"
    and "atoi_value v \<notin> set (AirspySource.m_srates s)"
  shows "airspy_srate m s l = Inl (Inr (False,
           s \<lparr> AirspySource.m_sampleRate := 0, AirspySource.m_error := ''Invalid sample rate'' \<rparr>))"
  using assms(1,2,5) atoi_Inr [OF assms(3,4)] sint_word_of_int_32 [OF assms(3,4)]
  by (simp add: airspy_srate_def srate_loop_missing)

lemma hf_srate_invalid:
  assumes "m ''srate'' = Some v" and "\<not> strcasecmp_equal v ''list''"
    and "- (2 ^ 31) \<le> atoi_value v" and "atoi_value v < 2 ^ 31"
    and "atoi_value v \<notin> set (AirspyHFSource.m_srates s)"
  shows "hf_srate m s l = Inl (Inr (False,
           s \<lparr> AirspyHFSource.m_sampleRate := 0, AirspyHFSource.m_error := ''Invalid sample rate'' \<rparr>))"
  using assms(1,2,5) atoi_Inr [OF assms(3,4)] sint_word_of_int_32 [OF assms(3,4)]
  by (simp add: hf_srate_def srate_loop_missing)

lemma atoi_value_1000: "atoi_value ''1000'' = 1000"
  by (simp add: atoi_value_def c_str_def isspace_def isdigit_def)

lemma atoi_value_5000000000: "atoi_value ''5000000000'' = 5000000000"
  by (simp add: atoi_value_def c_str_def isspace_def isdigit_def)

lemma atoi_value_123: "atoi_value ''123'' = 123"
  by (simp add: atoi_value_def c_str_def isspace_def isdigit_def)

lemma atoi_value_0: "atoi_value ''0'' = 0"
  by (simp add: atoi_value_def c_str_def isspace_def isdigit_def)

lemma not_list_123: "\<not> strcasecmp_equal ''123'' ''list''"
  by (simp add: strcasecmp_equal_def c_str_def tolower_def)

lemma list_is_list: "strcasecmp_equal ''list'' ''list''"
  by (simp add: strcasecmp_equal_def)

text \<open>
  Claim C9, for the numbers \<^verbatim>\<open>atoi\<close> can return. When the map has the key \<^verbatim>\<open>freq\<close>
  and the number written there fits an \<^verbatim>\<open>int\<close> and is below 24000000 or above
  1800000000, \<^verbatim>\<open>configure\<close> of \<^verbatim>\<open>AirspySource\<close> and of \<^verbatim>\<open>AirspyHFSource\<close> returns false, and
  the source is as before but for \<open>m_error\<close>, which is \<^verbatim>\<open>Invalid frequency\<close>: no call was
  made to the device, and \<open>m_frequency\<close>, \<open>m_confFreq\<close> and \<open>m_sampleRate\<close> are as they were.
\<close>

theorem configure_rejects_frequency_out_of_range:
  assumes "m ''freq'' = Some v"
    and "- (2 ^ 31) \<le> atoi_value v" and "atoi_value v < 2 ^ 31"
    and "atoi_value v < 24000000 \<or> 1800000000 < atoi_value v"
  shows "AirspySource_configure env s m
           = Inr (False, s \<lparr> AirspySource.m_error := ''Invalid frequency'' \<rparr>)
       \<and> AirspyHFSource_configure env h m
           = Inr (False, h \<lparr> AirspyHFSource.m_error := ''Invalid frequency'' \<rparr>)"
  by (simp add: AirspySource_configure_def AirspyHFSource_configure_def
      airspy_freq_invalid [of m v, OF assms] hf_freq_invalid [of m v, OF assms])

theorem configure_rejects_frequency_out_of_range_witness:
  "AirspySource_configure example_env example_airspy [''freq'' \<mapsto> ''1000'']
     = Inr (False, example_airspy \<lparr> AirspySource.m_error := ''Invalid frequency'' \<rparr>)
   \<and> AirspyHFSource_configure example_env example_airspyhf [''freq'' \<mapsto> ''1000'']
     = Inr (False, example_airspyhf \<lparr> AirspyHFSource.m_error := ''Invalid frequency'' \<rparr>)"
  using configure_rejects_frequency_out_of_range
    [of "[''freq'' \<mapsto> ''1000'']" "''1000''" example_env example_airspy example_airspyhf]
  by (simp add: atoi_value_1000)

text \<open>
  The claim as worded, for every number: 5000000000 is above 1800000000 and does not fit an
  \<^verbatim>\<open>int\<close>, so the behaviour of \<^verbatim>\<open>atoi\<close>, and with it that of \<^verbatim>\<open>configure\<close>, is undefined; no
  return of false is guaranteed.
\<close>

theorem frequency_beyond_int_counterexample:
  "atoi_value ''5000000000'' = 5000000000
   \<and> AirspySource_configure example_env example_airspy [''freq'' \<mapsto> ''5000000000'']
       = Inl AtoiOverflow
   \<and> AirspyHFSource_configure example_env example_airspyhf [''freq'' \<mapsto> ''5000000000'']
       = Inl AtoiOverflow"
  by (simp add: atoi_value_5000000000 atoi_Inl AirspySource_configure_def
      AirspyHFSource_configure_def airspy_freq_def hf_freq_def)

text \<open>
  Claim C10, as the code has it. The key \<^verbatim>\<open>freq\<close> is looked at first, so it must be absent
  or in range for the key \<^verbatim>\<open>srate\<close> to be reached. When then the value of \<^verbatim>\<open>srate\<close> is
  not the word \<^verbatim>\<open>list\<close>, fits an \<^verbatim>\<open>int\<close> and is not one of the rates of the device,
  \<^verbatim>\<open>configure\<close> returns false and the stored sample rate has been overwritten with 0:
  \<^verbatim>\<open>get_sample_rate\<close> then gives 0, whatever the rate was before.
\<close>

theorem configure_zeroes_sample_rate_on_unsupported_rate:
  assumes "m ''freq'' = None
      \<or> (\<exists>vf. m ''freq'' = Some vf \<and> 24000000 \<le> atoi_value vf \<and> atoi_value vf \<le> 1800000000)"
    and "m ''srate'' = Some v" and "\<not> strcasecmp_equal v ''list''"
    and "- (2 ^ 31) \<le> atoi_value v" and "atoi_value v < 2 ^ 31"
    and "atoi_value v \<notin> set (AirspySource.m_srates s)"
    and "atoi_value v \<notin> set (AirspyHFSource.m_srates h)"
  shows "\<exists>s' h'.
           AirspySource_configure env s m = Inr (False, s')
         \<and> s' = s \<lparr> AirspySource.m_sampleRate := 0, AirspySource.m_error := ''Invalid sample rate'' \<rparr>
         \<and> get_sample_rate s' = 0
         \<and> AirspyHFSource_configure env h m = Inr (False, h')
         \<and> h' = h \<lparr> AirspyHFSource.m_sampleRate := 0, AirspyHFSource.m_error := ''Invalid sample rate'' \<rparr>
         \<and> hf_get_sample_rate h' = 0"
proof -
  obtain l1 where l1: "airspy_freq m s (airspy_locals_init s) = Inr (s, l1)"
    using airspy_freq_pass [of m, OF assms(1)] by blast
  obtain k1 where k1: "hf_freq m h \<lparr> hf_sampleRateIndex = 0, hf_frequency = AirspyHFSource.m_confFreq h,
                          hf_changeFlags = 0 \<rparr> = Inr (h, k1)"
    using hf_freq_pass [of m, OF assms(1)] by blast
  have a: "AirspySource_configure env s m = Inr (False,
      s \<lparr> AirspySource.m_sampleRate := 0, AirspySource.m_error := ''Invalid sample rate'' \<rparr>)"
    by (simp add: AirspySource_configure_def l1 airspy_srate_invalid [of m v, OF assms(2,3,4,5,6)])
  have b: "AirspyHFSource_configure env h m = Inr (False,
      h \<lparr> AirspyHFSource.m_sampleRate := 0, AirspyHFSource.m_error := ''Invalid sample rate'' \<rparr>)"
    by (simp add: AirspyHFSource_configure_def k1 hf_srate_invalid [of m v, OF assms(2,3,4,5,7)])
  show ?thesis using a b by (simp add: get_sample_rate_def hf_get_sample_rate_def)
qed

theorem configure_zeroes_sample_rate_on_unsupported_rate_witness:
  "get_sample_rate example_airspy = 10000000
   \<and> hf_get_sample_rate example_airspyhf = 768000
   \<and> (\<exists>s' h'.
        AirspySource_configure example_env example_airspy [''srate'' \<mapsto> ''123''] = Inr (False, s')
      \<and> get_sample_rate s' = 0
      \<and> AirspyHFSource_configure example_env example_airspyhf [''srate'' \<mapsto> ''123''] = Inr (False, h')
      \<and> hf_get_sample_rate h' = 0)"
  using configure_zeroes_sample_rate_on_unsupported_rate
    [of "[''srate'' \<mapsto> ''123'']" "''123''" example_airspy example_airspyhf example_env]
  by (simp add: atoi_value_123 not_list_123 example_airspy_def example_airspyhf_def
      get_sample_rate_def hf_get_sample_rate_def)

text \<open>
  The claim as worded, for every map with an unsupported \<^verbatim>\<open>srate\<close>: when the same map has
  a \<^verbatim>\<open>freq\<close> out of range, \<^verbatim>\<open>configure\<close> returns false before it looks at \<^verbatim>\<open>srate\<close>, and the
  stored sample rate is the one configured before, not 0.
\<close>

theorem sample_rate_kept_counterexample:
  "atoi_value ''123'' \<notin> set (AirspySource.m_srates example_airspy)
   \<and> AirspySource_configure example_env example_airspy [''freq'' \<mapsto> ''0'', ''srate'' \<mapsto> ''123'']
       = Inr (False, example_airspy \<lparr> AirspySource.m_error := ''Invalid frequency'' \<rparr>)
   \<and> get_sample_rate (example_airspy \<lparr> AirspySource.m_error := ''Invalid frequency'' \<rparr>) = 10000000"
proof -
  have "AirspySource_configure example_env example_airspy [''freq'' \<mapsto> ''0'', ''srate'' \<mapsto> ''123'']
       = Inr (False, example_airspy \<lparr> AirspySource.m_error := ''Invalid frequency'' \<rparr>)"
    by (simp add: AirspySource_configure_def
        airspy_freq_invalid [of "[''freq'' \<mapsto> ''0'', ''srate'' \<mapsto> ''123'']" "''0''"] atoi_value_0)
  then show ?thesis
    by (simp add: atoi_value_123 example_airspy_def get_sample_rate_def)
qed

section \<open>Packetizer and reassembler together\<close>

lemma MetaData_of_bytes_bytes [simp]:
  "MetaData_of_bytes (MetaData_bytes h @ rest) = h"
  by (cases h) (simp add: MetaData_of_bytes_def MetaData_bytes_def MetaData_head_bytes_def nth_append)






lemma write_sane_after:
  assumes lens: "length (m_bufMeta s) = unat (m_udpSize s)" "length (m_buf s) = unat (m_udpSize s)"
    and sb: "UDPSink.m_sampleBytes s = 2"
    and udp: "42 \<le> unat (m_udpSize s)" "unat (m_udpSize s) < 65536" "4 dvd unat (m_udpSize s)"
    and w: "UDPSink_write ext tv s samples_in = Inr (s', dgs)"
  shows "length (m_bufMeta s') = unat (m_udpSize s')" and "length (m_buf s') = unat (m_udpSize s')"
    and "UDPSink.m_sampleBytes s' = 2" and "m_udpSize s' = m_udpSize s"
    and "m_lz4MinInputSize s' = m_lz4MinInputSize s"
proof -
  define spb where "spb = unat (m_udpSize s) div 4"
  define h where "h = write_fields tv s (length samples_in) (of_nat spb)
            (calculate_crc ext (MetaData_head_bytes (write_fields tv s (length samples_in) (of_nat spb) 0)))"
  define nc where "nc = unat (m_nbCompleteBlocks h)"
  define r where "r = unat (m_remainderSamples h)"
  let ?rb = "vector_bytes (take r (drop (nc * spb) samples_in)) @ drop (4 * r) (m_buf s)"
  from w obtain h' spb' bufMeta s1 buf where
    wm: "write_meta ext tv s (length samples_in) = Inr (h', spb', bufMeta)" and
    wr: "write_resize (s \<lparr> m_bufMeta := bufMeta \<rparr>) h' = Inr s1"
    by (rule UDPSink_write_InrD)
  have spb_lt: "spb < 16384" using udp(2) by (simp add: spb_def)
  have spb_pos: "0 < spb" using udp(1) by (simp add: spb_def)
  have uspb: "unat (of_nat spb :: 16 word) = spb"
    using spb_lt by (simp add: unat_of_nat)
  have spbw: "samplesPerBlock s = Inr (of_nat spb)"
    by (simp add: samplesPerBlock_def sb spb_def)
  have nz: "(of_nat spb :: 16 word) \<noteq> 0"
    using uspb spb_pos by (metis unat_0 less_numeral_extra(3))
  have l42: "42 \<le> length (m_bufMeta s)" using lens udp by simp
  have "write_meta ext tv s (length samples_in) = Inr (h, of_nat spb, MetaData_bytes h @ drop 42 (m_bufMeta s))"
    unfolding h_def by (rule write_meta_eq [OF spbw nz l42])
  with wm have e: "h' = h" "bufMeta = MetaData_bytes h @ drop 42 (m_bufMeta s)" by auto
  note wr' = wr [unfolded e]
  note ws = write_sane [where s = s and samples_in = samples_in and ext = ext and tv = tv
      and ?s1.0 = s1, folded spb_def, folded h_def, folded nc_def r_def, OF lens sb udp wr']
  from ws(2) w have s': "s' = (write_current ext s1 h) \<lparr> m_buf := (if 0 < r then ?rb else m_buf s) \<rparr>"
    by simp
  have "r < spb" unfolding ws(4) using spb_pos by (rule mod_less_divisor)
  then have r4: "4 * r \<le> unat (m_udpSize s)" using ws(6) by linarith
  from ws(7) have lt: "length (take r (drop (nc * spb) samples_in)) = r" by simp
  show 3: "m_udpSize s' = m_udpSize s"
    using write_resize_frame(1) [OF wr'] by (simp add: s' write_current_frame)
  show "length (m_buf s') = unat (m_udpSize s')"
    unfolding 3 using lens(2) r4 lt by (simp add: s')
  show "length (m_bufMeta s') = unat (m_udpSize s')"
    unfolding 3 using write_resize_frame(2) [OF wr'] lens(1) udp by (simp add: s' write_current_frame)
  show "UDPSink.m_sampleBytes s' = 2"
    using write_resize_frame(4) [OF wr'] sb by (simp add: s' write_current_frame)
  show "m_lz4MinInputSize s' = m_lz4MinInputSize s"
    using write_resize_frame(6) [OF wr'] by (simp add: s' write_current_frame)
qed

lemma write_sane_succeeds:
  assumes lens: "length (m_bufMeta s) = unat (m_udpSize s)" "length (m_buf s) = unat (m_udpSize s)"
    and sb: "UDPSink.m_sampleBytes s = 2"
    and udp: "42 \<le> unat (m_udpSize s)" "unat (m_udpSize s) < 65536" "4 dvd unat (m_udpSize s)"
    and ok: "m_lz4MinInputSize s = 0 \<or> (of_nat (length samples_in) :: 32 word) * 2 * 2 \<noteq> 0"
  shows "\<exists>s' dgs. UDPSink_write ext tv s samples_in = Inr (s', dgs)"
proof -
  define spb where "spb = unat (m_udpSize s) div 4"
  define h where "h = write_fields tv s (length samples_in) (of_nat spb)
            (calculate_crc ext (MetaData_head_bytes (write_fields tv s (length samples_in) (of_nat spb) 0)))"
  let ?s = "s \<lparr> m_bufMeta := MetaData_bytes h @ drop 42 (m_bufMeta s) \<rparr>"
  have "m_lz4MinInputSize ?s = 0
      \<or> MetaData.m_nbSamples h * 2 * ucast (UDPSink.m_sampleBytes ?s) \<noteq> (0 :: 32 word)"
    using ok by (simp add: h_def sb)
  then have "\<exists>s1. write_resize ?s h = Inr s1" by (rule write_resize_ok)
  then obtain s1 where wr: "write_resize ?s h = Inr s1" ..
  note ws = write_sane [where s = s and samples_in = samples_in and ext = ext and tv = tv
      and ?s1.0 = s1, folded spb_def, folded h_def, OF lens sb udp wr]
  from ws(2) show ?thesis by blast
qed

lemma write_lz4_after:
  assumes w: "UDPSink_write ext tv s samples_in = Inr (s', dgs)"
    and diff: "of_nat (length samples_in) \<noteq> UDPSink.m_nbSamples s"
    and lz4: "0 < m_lz4MinInputSize s"
    and bpf: "bpf = (of_nat (length samples_in) :: 32 word) * 2 * ucast (UDPSink.m_sampleBytes s)"
  shows "m_lz4BufSize s'
           = LZ4_compressBound (sint (ucast ((m_lz4MinInputSize s div ucast bpf + 1) * ucast bpf) :: 32 word))"
    and "m_lz4Buffer s' = Suc (allocations s)" and "allocations s' = Suc (allocations s)"
proof -
  from w obtain h spb bufMeta s1 buf where
    wm: "write_meta ext tv s (length samples_in) = Inr (h, spb, bufMeta)" and
    wr: "write_resize (s \<lparr> m_bufMeta := bufMeta \<rparr>) h = Inr s1" and
    s': "s' = (write_current ext s1 h) \<lparr> m_buf := buf \<rparr>"
    by (rule UDPSink_write_InrD)
  from write_meta_Inr(4) [OF wm] have n: "MetaData.m_nbSamples h = of_nat (length samples_in)"
    by (metis write_fields_sel(6))
  from wr diff lz4 have
    "s1 = s \<lparr> m_bufMeta := bufMeta,
              m_lz4BufSize := LZ4_compressBound (sint (ucast ((m_lz4MinInputSize s div ucast bpf + 1) * ucast bpf) :: 32 word)),
              m_lz4Buffer := Suc (allocations s),
              allocations := Suc (allocations s),
              m_nbSamples := MetaData.m_nbSamples h \<rparr>"
    by (simp add: write_resize_def Let_def n bpf split: if_splits)
  then show "m_lz4BufSize s'
           = LZ4_compressBound (sint (ucast ((m_lz4MinInputSize s div ucast bpf + 1) * ucast bpf) :: 32 word))"
    and "m_lz4Buffer s' = Suc (allocations s)" and "allocations s' = Suc (allocations s)"
    by (simp_all add: s' write_current_frame)
qed

lemma lz4_bound_3:
  "LZ4_compressBound (sint (ucast (((1000 :: 64 word) div ucast ((of_nat 3 :: 32 word) * 2 * ucast (2 :: 8 word)) + 1)
      * ucast ((of_nat 3 :: 32 word) * 2 * ucast (2 :: 8 word))) :: 32 word)) = 1027"
  by (simp add: LZ4_compressBound_def)

lemma lz4_bound_1:
  "LZ4_compressBound (sint (ucast (((1000 :: 64 word) div ucast ((of_nat 1 :: 32 word) * 2 * ucast (2 :: 8 word)) + 1)
      * ucast ((of_nat 1 :: 32 word) * 2 * ucast (2 :: 8 word))) :: 32 word)) = 1023"
  by (simp add: LZ4_compressBound_def)

lemma example_lz4_sink_sane:
  "length (m_bufMeta ((example_sink 44) \<lparr> m_lz4MinInputSize := 1000 \<rparr>))
     = unat (m_udpSize ((example_sink 44) \<lparr> m_lz4MinInputSize := 1000 \<rparr>))"
  "length (m_buf ((example_sink 44) \<lparr> m_lz4MinInputSize := 1000 \<rparr>))
     = unat (m_udpSize ((example_sink 44) \<lparr> m_lz4MinInputSize := 1000 \<rparr>))"
  "UDPSink.m_sampleBytes ((example_sink 44) \<lparr> m_lz4MinInputSize := 1000 \<rparr>) = 2"
  "42 \<le> unat (m_udpSize ((example_sink 44) \<lparr> m_lz4MinInputSize := 1000 \<rparr>))"
  "unat (m_udpSize ((example_sink 44) \<lparr> m_lz4MinInputSize := 1000 \<rparr>)) < 65536"
  "4 dvd unat (m_udpSize ((example_sink 44) \<lparr> m_lz4MinInputSize := 1000 \<rparr>))"
  by simp_all

theorem write_resizes_only_on_length_change_witness:
  "\<exists>s1 dgs1 s2 dgs2 s3 dgs3.
      UDPSink_write example_ext example_tv ((example_sink 44) \<lparr> m_lz4MinInputSize := 1000 \<rparr>)
          [IQSample 1 1, IQSample 2 2, IQSample 3 3] = Inr (s1, dgs1)
    \<and> UDPSink_write example_ext example_tv s1 [IQSample 4 4, IQSample 5 5, IQSample 6 6] = Inr (s2, dgs2)
    \<and> UDPSink_write example_ext example_tv s2 [IQSample 7 7] = Inr (s3, dgs3)
    \<and> (m_lz4Buffer s1, m_lz4BufSize s1, allocations s1) = (1, 1027, 1)
    \<and> (m_lz4Buffer s2, m_lz4BufSize s2, allocations s2) = (1, 1027, 1)
    \<and> (m_lz4Buffer s3, m_lz4BufSize s3, allocations s3) = (2, 1023, 2)"
proof -
  let ?s0 = "(example_sink 44) \<lparr> m_lz4MinInputSize := 1000 \<rparr>"
  let ?b1 = "[IQSample 1 1, IQSample 2 2, IQSample 3 3]"
  let ?b2 = "[IQSample 4 4, IQSample 5 5, IQSample 6 6]"
  let ?b3 = "[IQSample 7 7]"
  note sane0 = example_lz4_sink_sane
  have "\<exists>s' dgs. UDPSink_write example_ext example_tv ?s0 ?b1 = Inr (s', dgs)"
    by (rule write_sane_succeeds [OF sane0]) simp
  then obtain s1 dgs1 where w1: "UDPSink_write example_ext example_tv ?s0 ?b1 = Inr (s1, dgs1)"
    by blast
  note sane1 = write_sane_after [OF sane0 w1]
  have f1: "m_lz4BufSize s1 = 1027" "m_lz4Buffer s1 = 1" "allocations s1 = 1"
    using write_lz4_after [OF w1 _ _ refl] lz4_bound_3
    by (simp_all add: example_sink_def UDPSink_new_def)
  have udp1: "m_udpSize s1 = 44" and lz1: "m_lz4MinInputSize s1 = 1000"
    using sane1(4,5) by simp_all
  have "\<exists>s' dgs. UDPSink_write example_ext example_tv s1 ?b2 = Inr (s', dgs)"
    by (rule write_sane_succeeds [OF sane1(1,2,3)]) (simp_all add: udp1)
  then obtain s2 dgs2 where w2: "UDPSink_write example_ext example_tv s1 ?b2 = Inr (s2, dgs2)"
    by blast
  have "length ?b1 = length ?b2" by simp
  note keep = write_resizes_only_on_length_change [OF w1 w2 this]
  have sane1': "42 \<le> unat (m_udpSize s1)" "unat (m_udpSize s1) < 65536" "4 dvd unat (m_udpSize s1)"
    by (simp_all add: udp1)
  note sane2 = write_sane_after [OF sane1(1,2,3) sane1' w2]
  have udp2: "m_udpSize s2 = 44" and lz2: "m_lz4MinInputSize s2 = 1000"
    using sane2(4,5) by (simp_all add: udp1 lz1)
  have n2: "UDPSink.m_nbSamples s2 = 3"
    using write_nbSamples_after [OF w2] by simp
  have "\<exists>s' dgs. UDPSink_write example_ext example_tv s2 ?b3 = Inr (s', dgs)"
    by (rule write_sane_succeeds [OF sane2(1,2,3)]) (simp_all add: udp2)
  then obtain s3 dgs3 where w3: "UDPSink_write example_ext example_tv s2 ?b3 = Inr (s3, dgs3)"
    by blast
  have f3: "m_lz4BufSize s3 = 1023" "m_lz4Buffer s3 = 2" "allocations s3 = 2"
    using write_lz4_after [OF w3 _ _ refl] lz4_bound_1 keep
    by (simp_all add: n2 lz2 sane2(3) f1)
  from w1 w2 w3 f1 f3 keep show ?thesis
    by auto
qed

text \<open>
  A call of \<^verbatim>\<open>write\<close> on the sink as the constructor leaves it (\<open>m_sampleBytes\<close> is 1), with
  a datagram size of 44 and a frame of 30 samples: \<open>samplesPerBlock\<close> is 22, but a datagram
  of 44 bytes holds 11 samples of four bytes.
\<close>

lemma write_new_44_frame_30:
  fixes B :: "IQSample list" and ext :: externals and u :: "nat \<Rightarrow> byte" and addr :: string
    and port :: "32 word" and tv :: timeval
  defines "s \<equiv> UDPSink_new ext u addr port 44"
  defines "h \<equiv> write_fields tv s 30 22
            (calculate_crc ext (MetaData_head_bytes (write_fields tv s 30 22 0)))"
  assumes len: "length B = 30"
  shows "samplesPerBlock s = Inr 22"
    and "write_header ext tv s B = Inr h"
    and "\<exists>s'. UDPSink_write ext tv s B =
          Inr (s', [MetaData_bytes h @ drop 42 (m_bufMeta s),
                    vector_bytes (take 11 B),
                    vector_bytes (take 4 (drop 22 B)) @ drop 16 (m_buf s)])"
proof -
  have f: "m_udpSize s = 44" "UDPSink.m_sampleBytes s = 1" "length (m_bufMeta s) = 44"
    "length (m_buf s) = 44" "m_lz4MinInputSize s = 0"
    by (simp_all add: s_def UDPSink_new_def)
  show spbw: "samplesPerBlock s = Inr 22"
    by (simp add: samplesPerBlock_def f)
  have wm: "write_meta ext tv s (length B) = Inr (h, 22, MetaData_bytes h @ drop 42 (m_bufMeta s))"
    unfolding h_def len by (rule write_meta_eq [OF spbw]) (simp_all add: f)
  then show "write_header ext tv s B = Inr h"
    by (simp add: write_header_def)
  let ?bm = "MetaData_bytes h @ drop 42 (m_bufMeta s)"
  have "\<exists>s1. write_resize (s \<lparr> m_bufMeta := ?bm \<rparr>) h = Inr s1"
    by (rule write_resize_no_lz4) (simp add: f)
  then obtain s1 where wr: "write_resize (s \<lparr> m_bufMeta := ?bm \<rparr>) h = Inr s1" ..
  let ?s2 = "write_current ext s1 h"
  have udp2: "m_udpSize ?s2 = 44"
    using write_resize_frame(1) [OF wr] by (simp add: write_current_frame f)
  have bm2: "m_bufMeta ?s2 = ?bm"
    using write_resize_frame(2) [OF wr] by (simp add: write_current_frame)
  have buf2: "m_buf ?s2 = m_buf s"
    using write_resize_frame(3) [OF wr] by (simp add: write_current_frame)
  have s44: "sint (44 :: 32 word) = 44" by simp
  have d0: "SendDataGram (m_bufMeta ?s2) 0 (sint (m_udpSize ?s2)) = Inr ?bm"
    unfolding udp2 bm2 by (rule SendDataGram_whole) (simp add: f)
  have nc: "m_nbCompleteBlocks h = 1" and r: "m_remainderSamples h = 8"
    and sbh: "MetaData.m_sampleBytes h = 1"
    by (simp_all add: h_def f)
  have t11: "take 44 (vector_bytes B) = vector_bytes (take 11 B)"
    using take_vector_bytes [of 11 B] by simp
  have b0: "SendDataGram (vector_bytes B) 0 44 = Inr (vector_bytes (take 11 B))"
    by (simp add: SendDataGram_def len t11)
  have blocks: "send_blocks (vector_bytes B) 22 (sint (m_udpSize ?s2)) (m_nbCompleteBlocks h) 0
      = Inr [vector_bytes (take 11 B)]"
    unfolding udp2 s44 nc
    by (subst send_blocks.simps) (simp add: b0 send_blocks_done)
  have t4: "take 16 (drop 88 (vector_bytes B)) = vector_bytes (take 4 (drop 22 B))"
    using take_drop_vector_bytes [of 4 22 B] by simp
  let ?rb = "vector_bytes (take 4 (drop 22 B)) @ drop 16 (m_buf s)"
  have lrb: "length ?rb = 44" by (simp add: len f)
  have "SendDataGram ?rb 0 44 = Inr ?rb"
    by (rule SendDataGram_whole) (simp only: lrb of_nat_numeral)
  then have rem: "send_remainder ?s2 h 22 (vector_bytes B) = Inr (?rb, [?rb])"
    unfolding send_remainder_def Let_def nc r sbh udp2 s44 buf2
    by (simp add: sizeof_IQSample_def len f t4)
  have "UDPSink_write ext tv s B = Inr (?s2 \<lparr> m_buf := ?rb \<rparr>, ?bm # [vector_bytes (take 11 B)] @ [?rb])"
    by (rule UDPSink_write_InrI [OF wm wr d0 blocks rem])
  then show "\<exists>s'. UDPSink_write ext tv s B =
          Inr (s', [MetaData_bytes h @ drop 42 (m_bufMeta s),
                    vector_bytes (take 11 B),
                    vector_bytes (take 4 (drop 22 B)) @ drop 16 (m_buf s)])"
    by simp
qed

text \<open>
  The claim as worded, for every sink: on the sink as the constructor leaves it, with a
  datagram size of 44, \<open>samplesPerBlock\<close> is 22 and a frame of 30 samples has one complete
  block and a remainder of 8. The one block datagram holds the samples 0 to 10, eleven
  and not \<open>samplesPerBlock\<close> of them; the samples 11 to 21 are in no datagram.
\<close>

theorem block_datagram_holds_half_counterexample:
  "samplesPerBlock (UDPSink_new example_ext (\<lambda>i. 0) ''127.0.0.1'' 9090 44) = Inr 22
   \<and> map_sum id header_shape
       (write_header example_ext example_tv (UDPSink_new example_ext (\<lambda>i. 0) ''127.0.0.1'' 9090 44)
          (map (\<lambda>i. IQSample (of_nat i) (of_nat i)) [0..<30]))
     = Inr (30, 1, 1, 8)
   \<and> (\<exists>s' hdr. UDPSink_write example_ext example_tv (UDPSink_new example_ext (\<lambda>i. 0) ''127.0.0.1'' 9090 44)
          (map (\<lambda>i. IQSample (of_nat i) (of_nat i)) [0..<30])
        = Inr (s', [hdr,
                    vector_bytes (map (\<lambda>i. IQSample (of_nat i) (of_nat i)) [0..<11]),
                    vector_bytes (map (\<lambda>i. IQSample (of_nat i) (of_nat i)) [22..<26]) @ replicate 28 0]))"
proof -
  let ?B = "map (\<lambda>i. IQSample (of_nat i) (of_nat i)) [0..<30] :: IQSample list"
  let ?s = "UDPSink_new example_ext (\<lambda>i. 0) ''127.0.0.1'' 9090 44"
  have len: "length ?B = 30" by simp
  note w1 = write_new_44_frame_30(1) [where B = ?B and ext = example_ext and u = "\<lambda>i. 0"
      and addr = "''127.0.0.1''" and port = 9090, OF len]
  note w2 = write_new_44_frame_30(2) [where B = ?B and ext = example_ext and u = "\<lambda>i. 0"
      and addr = "''127.0.0.1''" and port = 9090 and tv = example_tv, OF len]
  note w3 = write_new_44_frame_30(3) [where B = ?B and ext = example_ext and u = "\<lambda>i. 0"
      and addr = "''127.0.0.1''" and port = 9090 and tv = example_tv, OF len]
  have 1: "take 11 ?B = map (\<lambda>i. IQSample (of_nat i) (of_nat i)) [0..<11]"
    by (simp add: take_map)
  have 2: "take 4 (drop 22 ?B) = map (\<lambda>i. IQSample (of_nat i) (of_nat i)) [22..<26]"
    by (simp add: take_map drop_map)
  have 3: "drop 16 (m_buf ?s) = replicate 28 0"
    by (simp add: UDPSink_new_def map_replicate_const)
  have 4: "map_sum id header_shape (write_header example_ext example_tv ?s ?B) = Inr (30, 1, 1, 8)"
    unfolding w2 by (simp add: header_shape_def UDPSink_new_def)
  from w3 obtain s' where
    "UDPSink_write example_ext example_tv ?s ?B =
          Inr (s', [MetaData_bytes (write_fields example_tv ?s 30 22
                      (calculate_crc example_ext (MetaData_head_bytes (write_fields example_tv ?s 30 22 0))))
                    @ drop 42 (m_bufMeta ?s),
                    vector_bytes (take 11 ?B),
                    vector_bytes (take 4 (drop 22 ?B)) @ drop 16 (m_buf ?s)])"
    by blast
  then have "\<exists>s' hdr. UDPSink_write example_ext example_tv ?s ?B
        = Inr (s', [hdr,
                    vector_bytes (map (\<lambda>i. IQSample (of_nat i) (of_nat i)) [0..<11]),
                    vector_bytes (map (\<lambda>i. IQSample (of_nat i) (of_nat i)) [22..<26]) @ replicate 28 0])"
    unfolding 1 2 3 by blast
  with w1 4 show ?thesis by blast
qed











end
